theory Spec2Isabelle
  imports Complex_Main
begin

section \<open>The map tile module (d\_rats/map/maptile.py)\<close>

text \<open>
  The class \<open>MapTile\<close> keeps its configuration in class attributes
  (\<open>_base_dir\<close>, \<open>_connected\<close>, ...), reads and writes the tile cache on disk,
  reads the clock and talks to a tile server. The model threads one record through
  every method: the class attributes (fields \<open>cls_...\<close>, since an Isabelle name
  cannot start with an underscore), the file system, the clock, the server and a
  log of the requests sent to it. Private methods \<open>_local_path\<close> and
  \<open>_local_bad_path\<close> are \<open>m_local_path\<close> and \<open>m_local_bad_path\<close>.

  Python floats (coordinates, time stamps) are modelled as real numbers.
\<close>

subsection \<open>Exceptions\<close>

text \<open>
  \<open>urllib.request.urlopen\<close> fails either with \<open>urllib.error.HTTPError\<close> (the
  server answered with an error status) or with an exception that is not an
  \<open>HTTPError\<close>: \<open>URLError\<close> (name resolution, refused connection), a socket
  timeout, a reset connection.
\<close>

datatype url_failure = HTTPError int | URLError | SocketTimeout | ConnectionReset

datatype py_exception =
    MapNotConnected
  | MapTileNotFound
  | MapFetchError url_failure
  | Urlopen url_failure
  | TypeError
  | AttributeError
  | FileNotFoundError
  | ValueError
  | ZeroDivisionError

text \<open>\<open>except MapFetchUrlException\<close>: the three subclasses declared in the module.\<close>

fun is_MapFetchUrlException :: "py_exception \<Rightarrow> bool" where
  "is_MapFetchUrlException MapNotConnected = True"
| "is_MapFetchUrlException MapTileNotFound = True"
| "is_MapFetchUrlException (MapFetchError e) = True"
| "is_MapFetchUrlException e = False"

subsection \<open>State\<close>

datatype node = File string real | Dir real

fun st_mtime :: "node \<Rightarrow> real" where
  "st_mtime (File c m) = m"
| "st_mtime (Dir m) = m"

datatype urlopen_result = Response string | Fails url_failure

record map_state =
  cls_base_dir :: "string option"
  cls_connected :: bool
  cls_map_key :: "string option"
  cls_map_url_key :: "string option"
  cls_map_url :: "string option"
  cls_proxy :: "string option"
  cls_tile_lifetime :: int
  cls_zoom :: int
  cls_map_widget :: bool
  fs :: "string \<rightharpoonup> node"
  now :: real
  server :: "nat \<Rightarrow> urlopen_result"
  requests :: "string list"
  opener_proxy :: "string option"
  redraws :: nat

record map_position =
  latitude :: real
  longitude :: real

record map_tile =
  position :: map_position
  x_tile :: int
  y_tile :: int
  tile_position :: map_position

text \<open>The class as the module declares it, before any setter has run:
  \<open>_map_url\<close> is not a class attribute until \<open>set_map_info\<close> assigns it.\<close>

definition class_defaults :: "(string \<rightharpoonup> node) \<Rightarrow> real \<Rightarrow> (nat \<Rightarrow> urlopen_result) \<Rightarrow> map_state" where
  "class_defaults f t srv =
     \<lparr>cls_base_dir = None, cls_connected = False, cls_map_key = None,
      cls_map_url_key = None, cls_map_url = None, cls_proxy = None,
      cls_tile_lifetime = 0, cls_zoom = 0, cls_map_widget = False,
      fs = f, now = t, server = srv, requests = [], opener_proxy = None, redraws = 0\<rparr>"

subsection \<open>The operating system: paths, directories, files\<close>

text \<open>
  POSIX \<open>os.path.join\<close> of two components, \<open>os.path.dirname\<close>,
  \<open>os.path.isdir\<close>, \<open>os.path.exists\<close>, \<open>os.makedirs\<close> and \<open>open(...)\<close>
  for writing. \<open>os.path.exists None\<close> raises \<open>TypeError\<close> (from \<open>os.stat\<close>).
  Directory creation and file writes are taken to succeed; \<open>makedirs\<close> adds the
  directory and its missing ancestors and leaves every existing node alone.
\<close>

definition os_path_join :: "string \<Rightarrow> string \<Rightarrow> string" where
  "os_path_join a b =
     (if b \<noteq> [] \<and> hd b = CHR ''/'' then b
      else if a = [] \<or> last a = CHR ''/'' then a @ b
      else a @ ''/'' @ b)"

fun rstrip_slash :: "string \<Rightarrow> string" where
  "rstrip_slash s = rev (dropWhile (\<lambda>c. c = CHR ''/'') (rev s))"

definition os_path_dirname :: "string \<Rightarrow> string" where
  "os_path_dirname p =
     (let head = rev (dropWhile (\<lambda>c. c \<noteq> CHR ''/'') (rev p))
      in if head \<noteq> [] \<and> \<not> list_all (\<lambda>c. c = CHR ''/'') head
         then rstrip_slash head else head)"

definition os_path_isdir :: "map_state \<Rightarrow> string \<Rightarrow> bool" where
  "os_path_isdir s p = (case fs s p of Some (Dir m) \<Rightarrow> True | _ \<Rightarrow> False)"

definition os_path_exists :: "map_state \<Rightarrow> string option \<Rightarrow> py_exception + bool" where
  "os_path_exists s p =
     (case p of None \<Rightarrow> Inl TypeError | Some q \<Rightarrow> Inr (fs s q \<noteq> None))"

definition dir_chain :: "string \<Rightarrow> string list" where
  "dir_chain d = d # [take i d. i \<leftarrow> [1..<length d], d ! i = CHR ''/'']"

fun add_dirs :: "real \<Rightarrow> string list \<Rightarrow> (string \<rightharpoonup> node) \<Rightarrow> (string \<rightharpoonup> node)" where
  "add_dirs t [] f = f"
| "add_dirs t (d # ds) f =
     add_dirs t ds (case f d of None \<Rightarrow> f(d \<mapsto> Dir t) | Some n \<Rightarrow> f)"

definition os_makedirs :: "map_state \<Rightarrow> string \<Rightarrow> map_state" where
  "os_makedirs s d = s\<lparr>fs := add_dirs (now s) (dir_chain d) (fs s)\<rparr>"

definition write_file :: "map_state \<Rightarrow> string \<Rightarrow> string \<Rightarrow> map_state" where
  "write_file s p c = s\<lparr>fs := (fs s)(p \<mapsto> File c (now s))\<rparr>"

subsection \<open>Class methods that set the configuration\<close>

definition set_connected :: "map_state \<Rightarrow> bool \<Rightarrow> map_state" where
  "set_connected s c = s\<lparr>cls_connected := c\<rparr>"

definition set_map_info :: "map_state \<Rightarrow> string \<Rightarrow> string \<Rightarrow> string option \<Rightarrow> map_state" where
  "set_map_info s base_dir map_url map_url_key =
     (let s1 = (if \<not> os_path_isdir s base_dir then os_makedirs s base_dir else s)
      in s1\<lparr>cls_base_dir := Some base_dir, cls_map_url := Some map_url,
             cls_map_key := map_url_key\<rparr>)"

definition set_map_widget :: "map_state \<Rightarrow> bool \<Rightarrow> map_state" where
  "set_map_widget s w = s\<lparr>cls_map_widget := w\<rparr>"

definition set_proxy :: "map_state \<Rightarrow> string option \<Rightarrow> map_state" where
  "set_proxy s p = s\<lparr>cls_proxy := p\<rparr>"

definition set_tile_lifetime :: "map_state \<Rightarrow> int \<Rightarrow> map_state" where
  "set_tile_lifetime s l = s\<lparr>cls_tile_lifetime := l\<rparr>"

definition set_zoom :: "map_state \<Rightarrow> int \<Rightarrow> map_state" where
  "set_zoom s z = s\<lparr>cls_zoom := z\<rparr>"

subsection \<open>Tile coordinates\<close>

text \<open>\<open>int(x)\<close> of a float truncates towards zero.\<close>

definition py_int :: "real \<Rightarrow> int" where
  "py_int r = (if 0 \<le> r then \<lfloor>r\<rfloor> else \<lceil>r\<rceil>)"

text \<open>
  \<open>deg2num\<close>: \<open>1 / math.cos\<close> raises \<open>ZeroDivisionError\<close> on a zero divisor and
  \<open>math.log\<close> raises \<open>ValueError\<close> outside its domain.

  \<open>deg2num\<close> and \<open>num2deg\<close> are the source's formulas over the real numbers. The
  program evaluates them with IEEE doubles and the C library's \<open>tan\<close>, \<open>cos\<close>,
  \<open>log\<close>, \<open>atan\<close> and \<open>sinh\<close>, and the two agree only where every intermediate
  value is exact, as at the position (0, 0). They differ where rounding decides the
  integer part (at the corner of a tile the doubles may give the index below) and
  at latitude 90 and -90, where the cosine of the double nearest to a right angle is
  not zero. Nothing below uses \<open>deg2num\<close> as the program's result at an input
  where the doubles are inexact.
\<close>

definition deg2num :: "map_state \<Rightarrow> map_position \<Rightarrow> py_exception + (int \<times> int)" where
  "deg2num s pos =
     (let lat_rad = latitude pos * pi / 180;
          num = 2 powr real_of_int (cls_zoom s);
          xtile = py_int ((longitude pos + 180) / 360 * num)
      in if cos lat_rad = 0 then Inl ZeroDivisionError
         else let a = tan lat_rad + 1 / cos lat_rad
              in if a \<le> 0 then Inl ValueError
                 else Inr (xtile, py_int ((1 - ln a / pi) / 2 * num)))"

definition num2deg :: "map_state \<Rightarrow> int \<Rightarrow> int \<Rightarrow> map_position" where
  "num2deg s xtile ytile =
     (let num = 2 powr real_of_int (cls_zoom s);
          lon_deg = real_of_int xtile / num * 360 - 180;
          lat_rad = arctan (sinh (pi * (1 - 2 * real_of_int ytile / num)));
          lat_deg = lat_rad * 180 / pi
      in \<lparr>latitude = lat_deg, longitude = lon_deg\<rparr>)"

text \<open>\<open>__init__\<close>: from a position, or else from the two axis values.\<close>

definition MapTile_init ::
  "map_state \<Rightarrow> map_position option \<Rightarrow> int option \<Rightarrow> int option \<Rightarrow> py_exception + map_tile" where
  "MapTile_init s pos x_axis y_axis =
     (case pos of
        Some p \<Rightarrow>
          (case deg2num s p of
             Inl e \<Rightarrow> Inl e
           | Inr (x, y) \<Rightarrow>
               Inr \<lparr>position = p, x_tile = x, y_tile = y, tile_position = num2deg s x y\<rparr>)
      | None \<Rightarrow>
          (case (x_axis, y_axis) of
             (Some xa, Some ya) \<Rightarrow>
               (let p = num2deg s xa ya
                in case deg2num s p of
                     Inl e \<Rightarrow> Inl e
                   | Inr (x, y) \<Rightarrow>
                       Inr \<lparr>position = p, x_tile = x, y_tile = y, tile_position = p\<rparr>)
           | _ \<Rightarrow> Inl TypeError))"

definition path_els :: "map_state \<Rightarrow> map_tile \<Rightarrow> py_exception + (int \<times> int)" where
  "path_els s t = deg2num s (position t)"

definition tile_edges :: "map_state \<Rightarrow> map_tile \<Rightarrow> real \<times> real \<times> real \<times> real" where
  "tile_edges s t =
     (let northwest = num2deg s (x_tile t) (y_tile t);
          southeast = num2deg s (x_tile t + 1) (y_tile t + 1)
      in (latitude southeast, longitude northwest,
          latitude northwest, longitude southeast))"

text \<open>\<open>__contains__\<close>\<close>

definition contains :: "map_state \<Rightarrow> map_tile \<Rightarrow> map_position \<Rightarrow> bool" where
  "contains s t point =
     (case tile_edges s t of
        (lat_min, lon_min, lat_max, lon_max) \<Rightarrow>
          (let lat_match = (lat_min < latitude point \<and> latitude point < lat_max);
               lon_match = (lon_min < longitude point \<and> longitude point < lon_max)
           in lat_match \<and> lon_match))"

text \<open>\<open>__sub__\<close>\<close>

definition tile_sub :: "map_tile \<Rightarrow> map_tile \<Rightarrow> int \<times> int" where
  "tile_sub a b = (x_tile a - x_tile b, y_tile a - y_tile b)"

subsection \<open>Paths of a tile\<close>

text \<open>The conversion \<open>%d\<close> of the \<open>%\<close> operator: an integer in decimal.\<close>

definition digit_char :: "nat \<Rightarrow> char" where
  "digit_char n = ''0123456789'' ! n"

fun string_of_nat :: "nat \<Rightarrow> string" where
  "string_of_nat n =
     (if n < 10 then [digit_char n]
      else string_of_nat (n div 10) @ [digit_char (n mod 10)])"

definition format_d :: "int \<Rightarrow> string" where
  "format_d i = (if i < 0 then ''-'' @ string_of_nat (nat (- i)) else string_of_nat (nat i))"

definition path :: "map_state \<Rightarrow> map_tile \<Rightarrow> string" where
  "path s t =
     format_d (cls_zoom s) @ ''/'' @ format_d (x_tile t) @ ''/'' @ format_d (y_tile t) @ ''.png''"

definition bad_path :: "map_state \<Rightarrow> map_tile \<Rightarrow> string" where
  "bad_path s t =
     format_d (cls_zoom s) @ ''/'' @ format_d (x_tile t) @ ''/'' @ format_d (y_tile t) @ ''.bad''"

text \<open>\<open>if not self._base_dir\<close> holds for \<open>None\<close> and for the empty string.\<close>

definition m_local_path :: "map_state \<Rightarrow> map_tile \<Rightarrow> string option \<times> map_state" where
  "m_local_path s t =
     (case cls_base_dir s of
        None \<Rightarrow> (None, s)
      | Some b \<Rightarrow>
          if b = [] then (None, s)
          else let p = os_path_join b (path s t)
               in (Some p,
                   if \<not> os_path_isdir s (os_path_dirname p)
                   then os_makedirs s (os_path_dirname p) else s))"

definition m_local_bad_path :: "map_state \<Rightarrow> map_tile \<Rightarrow> string option \<times> map_state" where
  "m_local_bad_path s t =
     (case cls_base_dir s of
        None \<Rightarrow> (None, s)
      | Some b \<Rightarrow>
          if b = [] then (None, s)
          else let p = os_path_join b (bad_path s t)
               in (Some p,
                   if \<not> os_path_isdir s (os_path_dirname p)
                   then os_makedirs s (os_path_dirname p) else s))"

definition get_local_tile_path ::
  "map_state \<Rightarrow> map_tile \<Rightarrow> (py_exception + string option) \<times> map_state" where
  "get_local_tile_path s t =
     (case m_local_path s t of
        (local_cache, s1) \<Rightarrow>
          (case m_local_path s1 t of
             (p, s2) \<Rightarrow>
               (case os_path_exists s2 p of
                  Inl e \<Rightarrow> (Inl e, s2)
                | Inr ex \<Rightarrow> (Inr (if ex then local_cache else None), s2))))"

definition remote_path :: "map_state \<Rightarrow> map_tile \<Rightarrow> py_exception + string" where
  "remote_path s t =
     (case cls_map_url s of
        None \<Rightarrow> Inl AttributeError
      | Some u \<Rightarrow>
          (let rp = u @ path s t
           in case cls_map_url_key s of
                None \<Rightarrow> Inr rp
              | Some k \<Rightarrow> if k \<noteq> [] then Inr (rp @ k) else Inr rp))"

subsection \<open>The cache check\<close>

text \<open>
  The part of \<open>is_local\<close> after the two existence tests: \<open>local_cache\<close> is the
  path that was tested last and \<open>local\<close> the answer.
\<close>

definition is_local_check ::
  "map_state \<Rightarrow> string option \<Rightarrow> bool \<Rightarrow> py_exception + bool" where
  "is_local_check s local_cache local =
     (if \<not> local then Inr False
      else if cls_tile_lifetime s = 0 \<or> \<not> cls_connected s then Inr local
      else case local_cache of
             None \<Rightarrow> Inl TypeError
           | Some p \<Rightarrow>
               (case fs s p of
                  None \<Rightarrow> Inl FileNotFoundError
                | Some n \<Rightarrow> Inr (now s - st_mtime n < real_of_int (cls_tile_lifetime s))))"

definition is_local :: "map_state \<Rightarrow> map_tile \<Rightarrow> (py_exception + bool) \<times> map_state" where
  "is_local s t =
     (case m_local_path s t of
        (local_cache, s1) \<Rightarrow>
          (case os_path_exists s1 local_cache of
             Inl e \<Rightarrow> (Inl e, s1)
           | Inr local \<Rightarrow>
               if \<not> local then
                 (case m_local_bad_path s1 t of
                    (bad_cache, s2) \<Rightarrow>
                      (case os_path_exists s2 bad_cache of
                         Inl e \<Rightarrow> (Inl e, s2)
                       | Inr bad \<Rightarrow> (is_local_check s2 bad_cache bad, s2)))
               else (is_local_check s1 local_cache local, s1)))"

subsection \<open>Fetching\<close>

text \<open>
  \<open>urlopen\<close> sends one request: the server's answer to the n-th request of the
  run is \<open>server s n\<close>, and the request is logged.
\<close>

definition urlopen :: "map_state \<Rightarrow> string \<Rightarrow> urlopen_result \<times> map_state" where
  "urlopen s url = (server s (length (requests s)), s\<lparr>requests := requests s @ [url]\<rparr>)"

text \<open>\<open>if self._proxy:\<close> builds an opener for the proxy and installs it.\<close>

definition install_opener :: "map_state \<Rightarrow> map_state" where
  "install_opener s =
     (case cls_proxy s of
        None \<Rightarrow> s
      | Some p \<Rightarrow> if p \<noteq> [] then s\<lparr>opener_proxy := Some p\<rparr> else s)"

definition fetch_url ::
  "map_state \<Rightarrow> string \<Rightarrow> string option \<Rightarrow> (py_exception + bool) \<times> map_state" where
  "fetch_url s url local =
     (if \<not> cls_connected s then (Inl MapNotConnected, s)
      else
        let s1 = install_opener s
        in case urlopen s1 url of
             (Fails err, s2) \<Rightarrow>
               (case err of
                  HTTPError code \<Rightarrow>
                    if code = 404 then (Inl MapTileNotFound, s2)
                    else (Inl (MapFetchError (HTTPError code)), s2)
                | _ \<Rightarrow> (Inl (Urlopen err), s2))
           | (Response read_data, s2) \<Rightarrow>
               (case local of
                  None \<Rightarrow> (Inl TypeError, s2)
                | Some p \<Rightarrow> (Inr True, write_file s2 p read_data)))"

text \<open>
  One pass through the body of \<open>for tile_num in range(10)\<close>: it ends the
  function with a value, ends it with an exception, or goes on to the next
  pass.
\<close>

datatype loop_outcome = Continue | Return bool | Raise py_exception

definition queue_draw :: "map_state \<Rightarrow> map_state" where
  "queue_draw s = (if cls_map_widget s then s\<lparr>redraws := Suc (redraws s)\<rparr> else s)"

definition fetch_body :: "map_state \<Rightarrow> map_tile \<Rightarrow> nat \<Rightarrow> loop_outcome \<times> map_state" where
  "fetch_body s t tile_num =
     (case remote_path s t of
        Inl e \<Rightarrow> (Raise e, s)
      | Inr url \<Rightarrow>
          (case m_local_path s t of
             (lp, s1) \<Rightarrow>
               (case fetch_url s1 url lp of
                  (Inr r, s2) \<Rightarrow> (Return True, queue_draw s2)
                | (Inl e, s2) \<Rightarrow>
                    if e = MapTileNotFound then
                      (case m_local_bad_path s2 t of
                         (logged, s3) \<Rightarrow>
                           (case m_local_bad_path s3 t of
                              (None, s4) \<Rightarrow> (Raise TypeError, s4)
                            | (Some bp, s4) \<Rightarrow> (Return False, write_file s4 bp [])))
                    else if is_MapFetchUrlException e then (Return False, s2)
                    else (Raise e, s2))))"

text \<open>The loop; a loop that runs out of passes makes the function return \<open>None\<close>.\<close>

fun fetch_loop ::
  "map_state \<Rightarrow> map_tile \<Rightarrow> nat list \<Rightarrow> (py_exception + bool option) \<times> map_state" where
  "fetch_loop s t [] = (Inr None, s)"
| "fetch_loop s t (tile_num # rest) =
     (case fetch_body s t tile_num of
        (Continue, s') \<Rightarrow> fetch_loop s' t rest
      | (Return b, s') \<Rightarrow> (Inr (Some b), s')
      | (Raise e, s') \<Rightarrow> (Inl e, s'))"

definition fetch :: "map_state \<Rightarrow> map_tile \<Rightarrow> (py_exception + bool option) \<times> map_state" where
  "fetch s t =
     (case is_local s t of
        (Inl e, s1) \<Rightarrow> (Inl e, s1)
      | (Inr True, s1) \<Rightarrow> (Inr (Some True), s1)
      | (Inr False, s1) \<Rightarrow> fetch_loop s1 t [0..<10])"

subsection \<open>A configured class and a tile, for concrete runs\<close>

text \<open>
  The class after \<open>set_map_info("/maps", "http://tiles.example/")\<close>,
  \<open>set_connected(True)\<close>, \<open>set_tile_lifetime(60)\<close> and \<open>set_zoom(3)\<close>, on a
  given file system, clock and server; and the tile (4, 4), whose north-west corner
  at zoom 3 is the position (0, 0).
\<close>

definition example_tile :: map_tile where
  "example_tile =
     \<lparr>position = \<lparr>latitude = 0, longitude = 0\<rparr>, x_tile = 4, y_tile = 4,
      tile_position = \<lparr>latitude = 0, longitude = 0\<rparr>\<rparr>"

definition example_state :: "(string \<rightharpoonup> node) \<Rightarrow> real \<Rightarrow> (nat \<Rightarrow> urlopen_result) \<Rightarrow> map_state" where
  "example_state f t srv =
     set_zoom (set_tile_lifetime (set_connected
       (set_map_info (class_defaults f t srv) ''/maps'' ''http://tiles.example/'' None)
       True) 60) 3"

subsection \<open>Auxiliary notion for the proofs\<close>

text \<open>
  \<open>dirs_added L s s'\<close>: the state \<open>s'\<close> is \<open>s\<close> but for the file system, which
  keeps every node of \<open>s\<close> and is unchanged at every path of length \<open>L\<close> or
  more. This is all that the calls of \<open>os.makedirs\<close> do to a state.
\<close>

definition dirs_added :: "nat \<Rightarrow> map_state \<Rightarrow> map_state \<Rightarrow> bool" where
  "dirs_added L s s' =
     (\<exists>f. s' = s\<lparr>fs := f\<rparr> \<and> (\<forall>q. L \<le> length q \<longrightarrow> f q = fs s q)
          \<and> (\<forall>q n. fs s q = Some n \<longrightarrow> f q = Some n))"

text \<open>
  What one pass of the loop body returns, read off the state it starts in, and
  what it leaves behind: \<open>attempt_post s url P B s'\<close> relates the state \<open>s\<close> before
  the pass to the state \<open>s'\<close> after it, for the tile path \<open>P\<close> and the marker path
  \<open>B\<close>.
\<close>

definition attempt_result :: "map_state \<Rightarrow> py_exception + bool option" where
  "attempt_result s =
     (if \<not> cls_connected s then Inr (Some False)
      else case server s (length (requests s)) of
             Response d \<Rightarrow> Inr (Some True)
           | Fails e \<Rightarrow>
               (case e of HTTPError c \<Rightarrow> Inr (Some False) | _ \<Rightarrow> Inl (Urlopen e)))"

definition attempt_post :: "map_state \<Rightarrow> string \<Rightarrow> string \<Rightarrow> string \<Rightarrow> map_state \<Rightarrow> bool" where
  "attempt_post s url P B s' =
     ((\<exists>f r p d. s' = s\<lparr>fs := f, requests := r, opener_proxy := p, redraws := d\<rparr>)
      \<and> requests s' = (if cls_connected s then requests s @ [url] else requests s)
      \<and> fs s' P =
          (if cls_connected s
           then (case server s (length (requests s)) of
                   Response d \<Rightarrow> Some (File d (now s)) | Fails e \<Rightarrow> fs s P)
           else fs s P)
      \<and> fs s' B =
          (if cls_connected s \<and> server s (length (requests s)) = Fails (HTTPError 404)
           then Some (File [] (now s)) else fs s B))"

section \<open>Supporting lemmas\<close>

subsection \<open>Paths and directories\<close>

lemma add_dirs_other: "q \<notin> set ds \<Longrightarrow> add_dirs t ds f q = f q"
  by (induction ds arbitrary: f) (auto split: option.splits)

lemma add_dirs_keeps: "f q = Some n \<Longrightarrow> add_dirs t ds f q = Some n"
proof (induction ds arbitrary: f)
  case Nil
  then show ?case by simp
next
  case (Cons d ds)
  show ?case
  proof (cases "f d")
    case None
    with Cons.prems have "q \<noteq> d" by auto
    then have "(f(d \<mapsto> Dir t)) q = Some n" using Cons.prems by simp
    then have "add_dirs t ds (f(d \<mapsto> Dir t)) q = Some n" by (rule Cons.IH)
    with None show ?thesis by simp
  next
    case (Some a)
    have "add_dirs t ds f q = Some n" using Cons.prems by (rule Cons.IH)
    with Some show ?thesis by simp
  qed
qed

lemma dir_chain_length: "x \<in> set (dir_chain d) \<Longrightarrow> length x \<le> length d"
  by (auto simp: dir_chain_def)

lemma ensure_dir_shape:
  "\<exists>f. (if \<not> os_path_isdir s d then os_makedirs s d else s) = s\<lparr>fs := f\<rparr>
       \<and> (\<forall>q. length d < length q \<longrightarrow> f q = fs s q)
       \<and> (\<forall>q n. fs s q = Some n \<longrightarrow> f q = Some n)"
proof (cases "os_path_isdir s d")
  case True
  then show ?thesis by (intro exI [of _ "fs s"]) simp
next
  case False
  have "add_dirs (now s) (dir_chain d) (fs s) q = fs s q" if "length d < length q" for q
  proof (rule add_dirs_other)
    show "q \<notin> set (dir_chain d)"
      using dir_chain_length [of q d] that by auto
  qed
  with False show ?thesis
    by (intro exI [of _ "add_dirs (now s) (dir_chain d) (fs s)"])
       (simp add: os_makedirs_def add_dirs_keeps)
qed

lemma dirname_shorter:
  assumes "p \<noteq> []" "last p \<noteq> CHR ''/''"
  shows "length (os_path_dirname p) < length p"
proof -
  let ?h = "rev (dropWhile (\<lambda>c. c \<noteq> CHR ''/'') (rev p))"
  from assms obtain c r where r: "rev p = c # r" "c \<noteq> CHR ''/''"
    by (cases "rev p") (auto simp: last_rev [symmetric] hd_rev)
  have "length (dropWhile (\<lambda>c. c \<noteq> CHR ''/'') (rev p)) \<le> length r"
    using r by (simp add: length_dropWhile_le)
  moreover have "length r < length p" using r by (metis length_rev length_Cons lessI)
  ultimately have h: "length ?h < length p" by simp
  have "length (rstrip_slash ?h) \<le> length ?h"
    using length_dropWhile_le [of "\<lambda>c. c = CHR ''/''" "rev ?h"] by simp
  with h show ?thesis by (auto simp: os_path_dirname_def Let_def)
qed

lemma join_append: "y \<noteq> [] \<Longrightarrow> os_path_join a (y @ e) = os_path_join a y @ e"
  by (simp add: os_path_join_def)

lemma local_paths_shape:
  "\<exists>J. os_path_join b (path s t) = J @ ''.png'' \<and> os_path_join b (bad_path s t) = J @ ''.bad''"
proof -
  let ?y = "format_d (cls_zoom s) @ ''/'' @ format_d (x_tile t) @ ''/'' @ format_d (y_tile t)"
  have y: "?y \<noteq> []" by simp
  have "path s t = ?y @ ''.png''" "bad_path s t = ?y @ ''.bad''"
    by (simp_all add: path_def bad_path_def)
  then show ?thesis using join_append [OF y] by metis
qed

subsection \<open>What directory creation changes\<close>

lemma dirs_added_refl: "dirs_added L s s"
  unfolding dirs_added_def by (intro exI [of _ "fs s"]) simp

lemma dirs_added_trans:
  assumes "dirs_added L s s1" "dirs_added L s1 s2"
  shows "dirs_added L s s2"
proof -
  from assms(1) obtain f where f: "s1 = s\<lparr>fs := f\<rparr>" "\<forall>q. L \<le> length q \<longrightarrow> f q = fs s q"
    "\<forall>q n. fs s q = Some n \<longrightarrow> f q = Some n"
    unfolding dirs_added_def by blast
  from assms(2) obtain g where g: "s2 = s1\<lparr>fs := g\<rparr>" "\<forall>q. L \<le> length q \<longrightarrow> g q = fs s1 q"
    "\<forall>q n. fs s1 q = Some n \<longrightarrow> g q = Some n"
    unfolding dirs_added_def by blast
  have "s2 = s\<lparr>fs := g\<rparr>" using f(1) g(1) by simp
  moreover have "\<forall>q. L \<le> length q \<longrightarrow> g q = fs s q" using f g by simp
  moreover have "\<forall>q n. fs s q = Some n \<longrightarrow> g q = Some n" using f g by simp
  ultimately show ?thesis unfolding dirs_added_def by blast
qed

lemma dirs_added_fields:
  assumes "dirs_added L s s'"
  shows "cls_base_dir s' = cls_base_dir s" "cls_connected s' = cls_connected s"
    "cls_map_key s' = cls_map_key s" "cls_map_url_key s' = cls_map_url_key s"
    "cls_map_url s' = cls_map_url s" "cls_proxy s' = cls_proxy s"
    "cls_tile_lifetime s' = cls_tile_lifetime s" "cls_zoom s' = cls_zoom s"
    "cls_map_widget s' = cls_map_widget s" "now s' = now s" "server s' = server s"
    "requests s' = requests s" "opener_proxy s' = opener_proxy s" "redraws s' = redraws s"
  using assms unfolding dirs_added_def by auto

lemma dirs_added_fs: "dirs_added L s s' \<Longrightarrow> L \<le> length q \<Longrightarrow> fs s' q = fs s q"
  unfolding dirs_added_def by auto

lemma dirs_added_keeps: "dirs_added L s s' \<Longrightarrow> fs s q = Some n \<Longrightarrow> fs s' q = Some n"
  unfolding dirs_added_def by auto

lemma dirs_added_paths:
  assumes "dirs_added L s s'"
  shows "path s' t = path s t" "bad_path s' t = bad_path s t"
  using dirs_added_fields(8) [OF assms] by (simp_all add: path_def bad_path_def)

lemma ensure_dir_added:
  assumes "length d < L"
  shows "dirs_added L s (if \<not> os_path_isdir s d then os_makedirs s d else s)"
proof -
  obtain f where f: "(if \<not> os_path_isdir s d then os_makedirs s d else s) = s\<lparr>fs := f\<rparr>"
    "\<forall>q. length d < length q \<longrightarrow> f q = fs s q" "\<forall>q n. fs s q = Some n \<longrightarrow> f q = Some n"
    using ensure_dir_shape [of s d] by blast
  have "\<forall>q. L \<le> length q \<longrightarrow> f q = fs s q" using f(2) assms by auto
  with f(1,3) show ?thesis unfolding dirs_added_def by blast
qed

lemma tile_paths:
  obtains J where "os_path_join b (path s t) = J @ ''.png''"
    and "os_path_join b (bad_path s t) = J @ ''.bad''"
  using local_paths_shape [of b s t] by blast

lemma tile_paths_length:
  "length (os_path_join b (bad_path s t)) = length (os_path_join b (path s t))"
  by (rule tile_paths [of b s t]) simp

lemma tile_paths_differ: "os_path_join b (path s t) \<noteq> os_path_join b (bad_path s t)"
  by (rule tile_paths [of b s t]) simp

lemma tile_path_dirname:
  "length (os_path_dirname (os_path_join b (path s t))) < length (os_path_join b (path s t))"
proof (rule tile_paths [of b s t])
  fix J assume J: "os_path_join b (path s t) = J @ ''.png''"
    "os_path_join b (bad_path s t) = J @ ''.bad''"
  have "length (os_path_dirname (J @ ''.png'')) < length (J @ ''.png'')"
    by (rule dirname_shorter) simp_all
  with J show ?thesis by simp
qed

lemma bad_path_dirname:
  "length (os_path_dirname (os_path_join b (bad_path s t))) < length (os_path_join b (path s t))"
proof (rule tile_paths [of b s t])
  fix J assume J: "os_path_join b (path s t) = J @ ''.png''"
    "os_path_join b (bad_path s t) = J @ ''.bad''"
  have "length (os_path_dirname (J @ ''.bad'')) < length (J @ ''.bad'')"
    by (rule dirname_shorter) simp_all
  with J show ?thesis by simp
qed

lemma m_local_path_added:
  assumes "cls_base_dir s = Some b" "b \<noteq> []"
  shows "\<exists>s'. m_local_path s t = (Some (os_path_join b (path s t)), s')
           \<and> dirs_added (length (os_path_join b (path s t))) s s'"
  using assms ensure_dir_added [OF tile_path_dirname, of b s t s]
  by (simp add: m_local_path_def Let_def)

lemma m_local_bad_path_added:
  assumes "cls_base_dir s = Some b" "b \<noteq> []"
  shows "\<exists>s'. m_local_bad_path s t = (Some (os_path_join b (bad_path s t)), s')
           \<and> dirs_added (length (os_path_join b (path s t))) s s'"
  using assms ensure_dir_added [OF bad_path_dirname, of b s t s]
  by (simp add: m_local_bad_path_def Let_def)

lemma is_local_check_added:
  assumes "dirs_added L s s'" "L \<le> length p"
  shows "is_local_check s' (Some p) l = is_local_check s (Some p) l"
  using dirs_added_fields [OF assms(1)] dirs_added_fs [OF assms]
  by (simp add: is_local_check_def split: option.splits)

lemma is_local_value:
  assumes base: "cls_base_dir s = Some b" "b \<noteq> []"
  shows "\<exists>s'. is_local s t =
            (is_local_check s
               (Some (if fs s (os_path_join b (path s t)) \<noteq> None
                      then os_path_join b (path s t) else os_path_join b (bad_path s t)))
               (fs s (os_path_join b (path s t)) \<noteq> None
                  \<or> fs s (os_path_join b (bad_path s t)) \<noteq> None), s')
           \<and> dirs_added (length (os_path_join b (path s t))) s s'"
proof -
  let ?P = "os_path_join b (path s t)" and ?B = "os_path_join b (bad_path s t)"
  let ?L = "length ?P"
  obtain s1 where s1: "m_local_path s t = (Some ?P, s1)" "dirs_added ?L s s1"
    using m_local_path_added [OF base] by blast
  have P1: "fs s1 ?P = fs s ?P" using dirs_added_fs [OF s1(2)] by simp
  show ?thesis
  proof (cases "fs s ?P")
    case (Some n)
    then have "is_local s t = (is_local_check s1 (Some ?P) True, s1)"
      using s1 P1 by (simp add: is_local_def os_path_exists_def)
    with Some s1(2) show ?thesis
      using is_local_check_added [OF s1(2), of ?P True] by auto
  next
    case None
    have base1: "cls_base_dir s1 = Some b" using dirs_added_fields(1) [OF s1(2)] base by simp
    obtain s2 where s2: "m_local_bad_path s1 t = (Some (os_path_join b (bad_path s1 t)), s2)"
      "dirs_added (length (os_path_join b (path s1 t))) s1 s2"
      using m_local_bad_path_added [OF base1 base(2)] by blast
    have pp: "path s1 t = path s t" "bad_path s1 t = bad_path s t"
      using dirs_added_paths [OF s1(2)] by simp_all
    from s2 pp have s2': "m_local_bad_path s1 t = (Some ?B, s2)" "dirs_added ?L s1 s2"
      by simp_all
    have tot: "dirs_added ?L s s2" using dirs_added_trans [OF s1(2) s2'(2)] .
    have B2: "fs s2 ?B = fs s ?B"
      using dirs_added_fs [OF tot, of ?B] by (simp add: tile_paths_length)
    have "is_local s t = (is_local_check s2 (Some ?B) (fs s ?B \<noteq> None), s2)"
      using s1 P1 None s2' B2 by (simp add: is_local_def os_path_exists_def)
    moreover have "is_local_check s2 (Some ?B) (fs s ?B \<noteq> None)
        = is_local_check s (Some ?B) (fs s ?B \<noteq> None)"
      using is_local_check_added [OF tot, of ?B] by (simp add: tile_paths_length)
    ultimately show ?thesis using None tot by auto
  qed
qed

subsection \<open>What each method leaves unchanged\<close>

lemma m_local_path_frame: "\<exists>f. snd (m_local_path s t) = s\<lparr>fs := f\<rparr>"
proof (cases "m_local_path s t = (None, s)")
  case True
  then show ?thesis by (intro exI [of _ "fs s"]) simp
next
  case False
  then obtain b where b: "cls_base_dir s = Some b" "b \<noteq> []"
    by (auto simp: m_local_path_def split: option.splits if_splits)
  from m_local_path_added [OF b, of t] show ?thesis
    unfolding dirs_added_def by auto
qed

lemma m_local_bad_path_frame: "\<exists>f. snd (m_local_bad_path s t) = s\<lparr>fs := f\<rparr>"
proof (cases "m_local_bad_path s t = (None, s)")
  case True
  then show ?thesis by (intro exI [of _ "fs s"]) simp
next
  case False
  then obtain b where b: "cls_base_dir s = Some b" "b \<noteq> []"
    by (auto simp: m_local_bad_path_def split: option.splits if_splits)
  from m_local_bad_path_added [OF b, of t] show ?thesis
    unfolding dirs_added_def by auto
qed

lemma is_local_frame: "\<exists>f. snd (is_local s t) = s\<lparr>fs := f\<rparr>"
proof -
  obtain lc s1 where s1: "m_local_path s t = (lc, s1)" by (cases "m_local_path s t")
  obtain f1 where f1: "s1 = s\<lparr>fs := f1\<rparr>" using m_local_path_frame [of s t] s1 by auto
  obtain bc s2 where s2: "m_local_bad_path s1 t = (bc, s2)" by (cases "m_local_bad_path s1 t")
  obtain f2 where f2: "s2 = s1\<lparr>fs := f2\<rparr>" using m_local_bad_path_frame [of s1 t] s2 by auto
  have "snd (is_local s t) = s1 \<or> snd (is_local s t) = s2"
    using s1 s2 by (auto simp: is_local_def split: sum.splits)
  then show ?thesis
  proof
    assume "snd (is_local s t) = s1" with f1 show ?thesis by blast
  next
    assume "snd (is_local s t) = s2"
    with f1 f2 have "snd (is_local s t) = s\<lparr>fs := f2\<rparr>" by simp
    then show ?thesis by blast
  qed
qed

lemma install_opener_frame: "\<exists>p. install_opener s = s\<lparr>opener_proxy := p\<rparr>"
proof (cases "install_opener s = s")
  case True
  then have "install_opener s = s\<lparr>opener_proxy := opener_proxy s\<rparr>" by simp
  then show ?thesis ..
next
  case False
  then obtain p where "cls_proxy s = Some p" "p \<noteq> []"
    by (cases "cls_proxy s") (auto simp: install_opener_def split: if_splits)
  then have "install_opener s = s\<lparr>opener_proxy := Some p\<rparr>"
    by (simp add: install_opener_def)
  then show ?thesis ..
qed

lemma upt_ten: "[0..<10] = 0 # [Suc 0..<10]"
  by (rule upt_conv_Cons) simp

text \<open>What one call of fetch_url does to the request log.\<close>

lemma fetch_url_requests:
  "requests (snd (fetch_url s url l)) =
     (if cls_connected s then requests s @ [url] else requests s)"
proof (cases "cls_connected s")
  case False
  then show ?thesis by (simp add: fetch_url_def)
next
  case True
  obtain p where p: "install_opener s = s\<lparr>opener_proxy := p\<rparr>"
    using install_opener_frame by blast
  show ?thesis using True
    by (simp add: fetch_url_def p urlopen_def write_file_def Let_def
        split: urlopen_result.splits url_failure.splits option.splits)
qed

lemma queue_draw_requests: "requests (queue_draw s) = requests s"
  by (simp add: queue_draw_def)

lemma write_file_requests: "requests (write_file s p c) = requests s"
  by (simp add: write_file_def)

lemma m_local_path_requests: "requests (snd (m_local_path s t)) = requests s"
  using m_local_path_frame [of s t] by auto

lemma m_local_bad_path_requests: "requests (snd (m_local_bad_path s t)) = requests s"
  using m_local_bad_path_frame [of s t] by auto

lemma m_local_path_connected: "cls_connected (snd (m_local_path s t)) = cls_connected s"
  using m_local_path_frame [of s t] by auto

lemma is_local_requests: "requests (snd (is_local s t)) = requests s"
  using is_local_frame [of s t] by auto

lemma is_local_connected: "cls_connected (snd (is_local s t)) = cls_connected s"
  using is_local_frame [of s t] by auto

lemma fetch_body_requests:
  "requests (snd (fetch_body s t n)) = requests s
   \<or> requests (snd (fetch_body s t n)) = requests s @ [the_url]
        \<and> remote_path s t = Inr the_url \<and> cls_connected s"
  if "remote_path s t = Inr the_url \<or> (\<forall>u. remote_path s t \<noteq> Inr u)"
proof (cases "remote_path s t")
  case (Inl e)
  then show ?thesis by (simp add: fetch_body_def)
next
  case (Inr url)
  with that have u: "the_url = url" by auto
  obtain lp s1 where s1: "m_local_path s t = (lp, s1)" by (cases "m_local_path s t")
  have r1: "requests s1 = requests s" "cls_connected s1 = cls_connected s"
    using m_local_path_requests [of s t] m_local_path_connected [of s t] s1 by simp_all
  obtain r s2 where s2: "fetch_url s1 url lp = (r, s2)" by (cases "fetch_url s1 url lp")
  have r2: "requests s2 = (if cls_connected s then requests s @ [url] else requests s)"
    using fetch_url_requests [of s1 url lp] s2 r1 by simp
  obtain b1 s3 where s3: "m_local_bad_path s2 t = (b1, s3)" by (cases "m_local_bad_path s2 t")
  have r3: "requests s3 = requests s2" using m_local_bad_path_requests [of s2 t] s3 by simp
  obtain b2 s4 where s4: "m_local_bad_path s3 t = (b2, s4)" by (cases "m_local_bad_path s3 t")
  have r4: "requests s4 = requests s2" using m_local_bad_path_requests [of s3 t] s4 r3 by simp
  have "requests (snd (fetch_body s t n)) = requests s2"
    using Inr s1 s2 s3 s4 r4
    by (simp add: fetch_body_def queue_draw_requests write_file_requests
        split: sum.splits option.splits)
  with r2 Inr u show ?thesis by auto
qed

lemma fetch_body_not_continue: "fst (fetch_body s t n) \<noteq> Continue"
proof (cases "remote_path s t")
  case (Inl e)
  then show ?thesis by (simp add: fetch_body_def)
next
  case (Inr url)
  obtain lp s1 where s1: "m_local_path s t = (lp, s1)" by (cases "m_local_path s t")
  obtain r s2 where s2: "fetch_url s1 url lp = (r, s2)" by (cases "fetch_url s1 url lp")
  obtain b1 s3 where s3: "m_local_bad_path s2 t = (b1, s3)" by (cases "m_local_bad_path s2 t")
  obtain b2 s4 where s4: "m_local_bad_path s3 t = (b2, s4)" by (cases "m_local_bad_path s3 t")
  show ?thesis using Inr s1 s2 s3 s4
    by (simp add: fetch_body_def split: sum.splits option.splits)
qed

lemma fetch_loop_first: "fetch_loop s t (n # rest) = fetch_loop s t [n]"
proof -
  obtain r s' where b: "fetch_body s t n = (r, s')" by (cases "fetch_body s t n")
  with fetch_body_not_continue [of s t n] have "r \<noteq> Continue" by simp
  with b show ?thesis by (cases r) simp_all
qed

lemma fetch_loop_body:
  "fetch_loop s t (n # rest) =
     (case fetch_body s t n of
        (Return b, s') \<Rightarrow> (Inr (Some b), s')
      | (Raise e, s') \<Rightarrow> (Inl e, s')
      | (Continue, s') \<Rightarrow> (Inr None, s'))"
proof -
  obtain r s' where b: "fetch_body s t n = (r, s')" by (cases "fetch_body s t n")
  with fetch_body_not_continue [of s t n] have "r \<noteq> Continue" by simp
  with b show ?thesis by (cases r) simp_all
qed

subsection \<open>One pass of the loop, and fetch\<close>

lemma queue_draw_frame: "\<exists>d. queue_draw s = s\<lparr>redraws := d\<rparr>"
proof (cases "cls_map_widget s")
  case True
  then have "queue_draw s = s\<lparr>redraws := Suc (redraws s)\<rparr>" by (simp add: queue_draw_def)
  then show ?thesis ..
next
  case False
  then have "queue_draw s = s\<lparr>redraws := redraws s\<rparr>" by (simp add: queue_draw_def)
  then show ?thesis ..
qed

lemma remote_path_frame:
  "remote_path (s\<lparr>fs := f, requests := r, opener_proxy := p, redraws := d\<rparr>) t = remote_path s t"
  by (simp add: remote_path_def path_def Let_def split: option.splits)

lemma fetch_body_value:
  assumes base: "cls_base_dir s = Some b" "b \<noteq> []" and url: "remote_path s t = Inr url"
  shows "\<exists>s'. fetch_body s t n =
            (case attempt_result s of
               Inr None \<Rightarrow> Continue | Inr (Some v) \<Rightarrow> Return v | Inl e \<Rightarrow> Raise e, s')
          \<and> attempt_post s url (os_path_join b (path s t)) (os_path_join b (bad_path s t)) s'"
proof -
  let ?P = "os_path_join b (path s t)" and ?B = "os_path_join b (bad_path s t)"
  let ?L = "length ?P"
  obtain s1 where s1: "m_local_path s t = (Some ?P, s1)" "dirs_added ?L s s1"
    using m_local_path_added [OF base] by blast
  then obtain f1 where f1: "s1 = s\<lparr>fs := f1\<rparr>" "\<forall>q. ?L \<le> length q \<longrightarrow> f1 q = fs s q"
    unfolding dirs_added_def by blast
  have LB: "length ?B = ?L" and PB: "?P \<noteq> ?B"
    using tile_paths_length [of b s t] tile_paths_differ [of b s t] by simp_all
  have f1P: "f1 ?P = fs s ?P" and f1B: "f1 ?B = fs s ?B" using f1(2) LB by simp_all
  show ?thesis
  proof (cases "cls_connected s")
    case False
    then have "fetch_url s1 url (Some ?P) = (Inl MapNotConnected, s1)"
      using f1(1) by (simp add: fetch_url_def)
    then have "fetch_body s t n = (Return False, s1)"
      using url s1(1) by (simp add: fetch_body_def)
    moreover have "attempt_result s = Inr (Some False)" using False by (simp add: attempt_result_def)
    moreover have "s1 = s\<lparr>fs := f1, requests := requests s, opener_proxy := opener_proxy s,
        redraws := redraws s\<rparr>" using f1(1) by simp
    then have "\<exists>f r p d. s1 = s\<lparr>fs := f, requests := r, opener_proxy := p, redraws := d\<rparr>"
      by blast
    then have "attempt_post s url ?P ?B s1"
      unfolding attempt_post_def using False f1(1) f1P f1B by simp
    ultimately show ?thesis by simp
  next
    case True
    obtain p where p: "install_opener s1 = s1\<lparr>opener_proxy := p\<rparr>"
      using install_opener_frame by blast
    define s2 where "s2 = s\<lparr>fs := f1, requests := requests s @ [url], opener_proxy := p,
        redraws := redraws s\<rparr>"
    have uo: "urlopen (install_opener s1) url = (server s (length (requests s)), s2)"
      unfolding urlopen_def p by (simp add: f1(1) s2_def)
    have c1: "cls_connected s1" using True f1(1) by simp
    show ?thesis
    proof (cases "server s (length (requests s))")
      case (Response d)
      then have "fetch_url s1 url (Some ?P) = (Inr True, write_file s2 ?P d)"
        using c1 uo by (simp add: fetch_url_def)
      then have fb: "fetch_body s t n = (Return True, queue_draw (write_file s2 ?P d))"
        using url s1(1) by (simp add: fetch_body_def)
      obtain d' where "queue_draw (write_file s2 ?P d) = (write_file s2 ?P d)\<lparr>redraws := d'\<rparr>"
        using queue_draw_frame by blast
      then have fin: "queue_draw (write_file s2 ?P d) =
          s\<lparr>fs := f1(?P \<mapsto> File d (now s)), requests := requests s @ [url], opener_proxy := p,
            redraws := d'\<rparr>"
        by (simp add: write_file_def s2_def)
      from fin have "\<exists>f r p d'. queue_draw (write_file s2 ?P d) =
          s\<lparr>fs := f, requests := r, opener_proxy := p, redraws := d'\<rparr>"
        by blast
      then have "attempt_post s url ?P ?B (queue_draw (write_file s2 ?P d))"
        unfolding attempt_post_def using True Response f1B PB by (simp add: fin)
      moreover have "attempt_result s = Inr (Some True)"
        using True Response by (simp add: attempt_result_def)
      ultimately show ?thesis using fb by simp
    next
      case (Fails e)
      show ?thesis
      proof (cases "e = HTTPError 404")
        case True404: True
        have fu: "fetch_url s1 url (Some ?P) = (Inl MapTileNotFound, s2)"
          using c1 uo Fails True404 by (simp add: fetch_url_def)
        have base2: "cls_base_dir s2 = Some b" using base by (simp add: s2_def)
        have pp2: "path s2 t = path s t" "bad_path s2 t = bad_path s t"
          by (simp_all add: path_def bad_path_def s2_def)
        obtain s3 where s3: "m_local_bad_path s2 t = (Some ?B, s3)" "dirs_added ?L s2 s3"
          using m_local_bad_path_added [OF base2 base(2), of t] pp2 by auto
        have base3: "cls_base_dir s3 = Some b" using dirs_added_fields(1) [OF s3(2)] base2 by simp
        have pp3: "path s3 t = path s t" "bad_path s3 t = bad_path s t"
          using dirs_added_paths [OF s3(2), of t] pp2 by simp_all
        obtain s4 where s4: "m_local_bad_path s3 t = (Some ?B, s4)" "dirs_added ?L s3 s4"
          using m_local_bad_path_added [OF base3 base(2), of t] pp3 by auto
        have "dirs_added ?L s2 s4" using dirs_added_trans [OF s3(2) s4(2)] .
        then obtain f4 where f4: "s4 = s2\<lparr>fs := f4\<rparr>" "\<forall>q. ?L \<le> length q \<longrightarrow> f4 q = fs s2 q"
          unfolding dirs_added_def by blast
        have f4P: "f4 ?P = fs s ?P" using f4(2) f1P by (simp add: s2_def)
        have fb: "fetch_body s t n = (Return False, write_file s4 ?B [])"
          using url s1(1) fu s3(1) s4(1) by (simp add: fetch_body_def)
        have fin: "write_file s4 ?B [] =
            s\<lparr>fs := f4(?B \<mapsto> File [] (now s)), requests := requests s @ [url],
              opener_proxy := p, redraws := redraws s\<rparr>"
          by (simp add: write_file_def f4(1) s2_def)
        from fin have "\<exists>f r p d. write_file s4 ?B [] =
            s\<lparr>fs := f, requests := r, opener_proxy := p, redraws := d\<rparr>"
          by blast
        then have "attempt_post s url ?P ?B (write_file s4 ?B [])"
          unfolding attempt_post_def using True Fails True404 f4P PB by (simp add: fin)
        moreover have "attempt_result s = Inr (Some False)"
          using True Fails True404 by (simp add: attempt_result_def)
        ultimately show ?thesis using fb by simp
      next
        case False
        have "\<exists>f r p d. s2 = s\<lparr>fs := f, requests := r, opener_proxy := p, redraws := d\<rparr>"
          unfolding s2_def by blast
        then have post: "attempt_post s url ?P ?B s2"
          unfolding attempt_post_def using True Fails False f1P f1B by (simp add: s2_def)
        show ?thesis
        proof (cases e)
          case (HTTPError c)
          with False have c: "c \<noteq> 404" by simp
          have "fetch_url s1 url (Some ?P) = (Inl (MapFetchError (HTTPError c)), s2)"
            using c1 uo Fails HTTPError c by (simp add: fetch_url_def)
          then have "fetch_body s t n = (Return False, s2)"
            using url s1(1) by (simp add: fetch_body_def)
          moreover have "attempt_result s = Inr (Some False)"
            using True Fails HTTPError by (simp add: attempt_result_def)
          ultimately show ?thesis using post by simp
        next
          case URLError
          have "fetch_url s1 url (Some ?P) = (Inl (Urlopen e), s2)"
            using c1 uo Fails URLError by (simp add: fetch_url_def)
          then have "fetch_body s t n = (Raise (Urlopen e), s2)"
            using url s1(1) by (simp add: fetch_body_def)
          moreover have "attempt_result s = Inl (Urlopen e)"
            using True Fails URLError by (simp add: attempt_result_def)
          ultimately show ?thesis using post by simp
        next
          case SocketTimeout
          have "fetch_url s1 url (Some ?P) = (Inl (Urlopen e), s2)"
            using c1 uo Fails SocketTimeout by (simp add: fetch_url_def)
          then have "fetch_body s t n = (Raise (Urlopen e), s2)"
            using url s1(1) by (simp add: fetch_body_def)
          moreover have "attempt_result s = Inl (Urlopen e)"
            using True Fails SocketTimeout by (simp add: attempt_result_def)
          ultimately show ?thesis using post by simp
        next
          case ConnectionReset
          have "fetch_url s1 url (Some ?P) = (Inl (Urlopen e), s2)"
            using c1 uo Fails ConnectionReset by (simp add: fetch_url_def)
          then have "fetch_body s t n = (Raise (Urlopen e), s2)"
            using url s1(1) by (simp add: fetch_body_def)
          moreover have "attempt_result s = Inl (Urlopen e)"
            using True Fails ConnectionReset by (simp add: attempt_result_def)
          ultimately show ?thesis using post by simp
        qed
      qed
    qed
  qed
qed

lemma attempt_result_frame:
  "attempt_result (s\<lparr>fs := f\<rparr>) = attempt_result s"
  by (simp add: attempt_result_def)

lemma attempt_post_added:
  assumes "dirs_added L s s1" "L \<le> length P" "L \<le> length B" "attempt_post s1 url P B s'"
  shows "attempt_post s url P B s'"
proof -
  from assms(1) obtain f1 where f1: "s1 = s\<lparr>fs := f1\<rparr>" "\<forall>q. L \<le> length q \<longrightarrow> f1 q = fs s q"
    unfolding dirs_added_def by blast
  from assms(4) obtain f r p d where
    fr: "s' = s1\<lparr>fs := f, requests := r, opener_proxy := p, redraws := d\<rparr>"
    unfolding attempt_post_def by blast
  then have "s' = s\<lparr>fs := f, requests := r, opener_proxy := p, redraws := d\<rparr>"
    using f1(1) by simp
  then have ex: "\<exists>f r p d. s' = s\<lparr>fs := f, requests := r, opener_proxy := p, redraws := d\<rparr>"
    by blast
  have PB: "fs s1 P = fs s P" "fs s1 B = fs s B" using f1 assms(2,3) by simp_all
  have fl: "cls_connected s1 = cls_connected s" "requests s1 = requests s" "server s1 = server s"
    "now s1 = now s" using f1(1) by simp_all
  from assms(4) show ?thesis
    unfolding attempt_post_def PB fl using ex by simp
qed

lemma fetch_loop_fst:
  "fst (fetch_loop s t (n # rest)) =
     (case fst (fetch_body s t n) of
        Return b \<Rightarrow> Inr (Some b) | Raise e \<Rightarrow> Inl e | Continue \<Rightarrow> Inr None)"
proof -
  obtain r s' where b: "fetch_body s t n = (r, s')" by (cases "fetch_body s t n")
  with fetch_body_not_continue [of s t n] have "r \<noteq> Continue" by simp
  with b show ?thesis by (cases r) simp_all
qed

lemma fetch_loop_snd: "snd (fetch_loop s t (n # rest)) = snd (fetch_body s t n)"
proof -
  obtain r s' where b: "fetch_body s t n = (r, s')" by (cases "fetch_body s t n")
  with fetch_body_not_continue [of s t n] have "r \<noteq> Continue" by simp
  with b show ?thesis by (cases r) simp_all
qed

lemma remote_path_fs: "remote_path (s\<lparr>fs := f\<rparr>) t = remote_path s t"
  by (simp add: remote_path_def path_def Let_def cong: option.case_cong)

text \<open>The result and the final state of fetch, with the base directory and URL configured.\<close>

lemma fetch_value:
  assumes base: "cls_base_dir s = Some b" "b \<noteq> []" and url: "remote_path s t = Inr url"
  shows "\<exists>s'. fetch s t =
            (case fst (is_local s t) of
               Inl e \<Rightarrow> Inl e
             | Inr v \<Rightarrow> if v then Inr (Some True) else attempt_result s, s')
          \<and> (if fst (is_local s t) = Inr False
             then attempt_post s url (os_path_join b (path s t)) (os_path_join b (bad_path s t)) s'
             else (\<exists>f. s' = s\<lparr>fs := f\<rparr>)
                  \<and> fs s' (os_path_join b (path s t)) = fs s (os_path_join b (path s t))
                  \<and> fs s' (os_path_join b (bad_path s t)) = fs s (os_path_join b (bad_path s t)))"
proof -
  let ?P = "os_path_join b (path s t)" and ?B = "os_path_join b (bad_path s t)"
  let ?L = "length ?P"
  obtain v s1 where il: "is_local s t = (v, s1)" and da: "dirs_added ?L s s1"
    using is_local_value [OF base, of t] by blast
  then obtain f1 where f1: "s1 = s\<lparr>fs := f1\<rparr>" "\<forall>q. ?L \<le> length q \<longrightarrow> f1 q = fs s q"
    unfolding dirs_added_def by blast
  have LB: "length ?B = ?L" using tile_paths_length [of b s t] by simp
  have keep: "fs s1 ?P = fs s ?P" "fs s1 ?B = fs s ?B" using f1 LB by simp_all
  show ?thesis
  proof (cases "v = Inr False")
    case False
    then have "fetch s t = (case v of Inl e \<Rightarrow> Inl e | Inr w \<Rightarrow> Inr (Some True), s1)"
      using il by (cases v) (auto simp: fetch_def)
    moreover have "(case v of Inl e \<Rightarrow> Inl e | Inr w \<Rightarrow> Inr (Some True))
        = (case v of Inl e \<Rightarrow> Inl e | Inr w \<Rightarrow> if w then Inr (Some True) else attempt_result s)"
      using False by (cases v) auto
    ultimately show ?thesis using il False f1(1) keep by auto
  next
    case True
    have base1: "cls_base_dir s1 = Some b" using f1(1) base by simp
    have url1: "remote_path s1 t = Inr url"
      using url f1(1) by (simp add: remote_path_fs)
    have pp: "path s1 t = path s t" "bad_path s1 t = bad_path s t"
      using dirs_added_paths [OF da] by simp_all
    obtain s' where b: "fetch_body s1 t 0 =
        (case attempt_result s1 of
           Inr None \<Rightarrow> Continue | Inr (Some v) \<Rightarrow> Return v | Inl e \<Rightarrow> Raise e, s')"
      and post1: "attempt_post s1 url ?P ?B s'"
      using fetch_body_value [OF base1 base(2) url1, of 0] pp by auto
    have ar: "attempt_result s1 = attempt_result s"
      using f1(1) by (simp add: attempt_result_frame)
    have post: "attempt_post s url ?P ?B s'"
      using attempt_post_added [OF da _ _ post1] LB by simp
    have "fetch s t = fetch_loop s1 t (0 # [Suc 0..<10])"
      using il True by (simp add: fetch_def upt_ten)
    also have "\<dots> = (attempt_result s, s')"
      using b ar fetch_body_not_continue [of s1 t 0]
      by (simp add: fetch_loop_body split: sum.splits option.splits)
    finally show ?thesis using il True post by simp
  qed
qed

lemma is_local_fst:
  assumes "cls_base_dir s = Some b" "b \<noteq> []"
  shows "fst (is_local s t) =
     (case (if fs s (os_path_join b (path s t)) \<noteq> None
            then fs s (os_path_join b (path s t))
            else fs s (os_path_join b (bad_path s t))) of
        None \<Rightarrow> Inr False
      | Some n \<Rightarrow>
          if cls_tile_lifetime s = 0 \<or> \<not> cls_connected s then Inr True
          else Inr (now s - st_mtime n < real_of_int (cls_tile_lifetime s)))"
proof -
  obtain s' where "is_local s t =
      (is_local_check s
         (Some (if fs s (os_path_join b (path s t)) \<noteq> None
                then os_path_join b (path s t) else os_path_join b (bad_path s t)))
         (fs s (os_path_join b (path s t)) \<noteq> None
            \<or> fs s (os_path_join b (bad_path s t)) \<noteq> None), s')"
    using is_local_value [OF assms] by blast
  then show ?thesis
    by (auto simp: is_local_check_def split: option.splits)
qed

subsection \<open>Results of fetch and the request log\<close>

lemma path_zoom: "cls_zoom s' = cls_zoom s \<Longrightarrow> path s' t = path s t"
  by (simp add: path_def)

lemma bad_path_zoom: "cls_zoom s' = cls_zoom s \<Longrightarrow> bad_path s' t = bad_path s t"
  by (simp add: bad_path_def)

lemma remote_path_cong:
  assumes "cls_map_url s' = cls_map_url s" "cls_map_url_key s' = cls_map_url_key s"
    "cls_zoom s' = cls_zoom s"
  shows "remote_path s' t = remote_path s t"
  using assms path_zoom [OF assms(3), of t]
  by (simp add: remote_path_def Let_def cong: option.case_cong)

lemma fetch_body_requests_le:
  "\<exists>us. requests (snd (fetch_body s t n)) = requests s @ us \<and> length us \<le> 1"
proof (cases "remote_path s t")
  case (Inl e)
  then have "requests (snd (fetch_body s t n)) = requests s @ []" by (simp add: fetch_body_def)
  then show ?thesis by (intro exI [of _ "[]"]) simp
next
  case (Inr u)
  then have "requests (snd (fetch_body s t n)) = requests s @ []
      \<or> requests (snd (fetch_body s t n)) = requests s @ [u]"
    using fetch_body_requests [of s t u n] by auto
  then show ?thesis
  proof
    assume "requests (snd (fetch_body s t n)) = requests s @ []"
    then show ?thesis by (intro exI [of _ "[]"]) simp
  next
    assume "requests (snd (fetch_body s t n)) = requests s @ [u]"
    then show ?thesis by (intro exI [of _ "[u]"]) simp
  qed
qed

lemma fetch_requests_le:
  "\<exists>us. requests (snd (fetch s t)) = requests s @ us \<and> length us \<le> 1"
proof -
  obtain v s1 where il: "is_local s t = (v, s1)" by (cases "is_local s t")
  have r1: "requests s1 = requests s" using is_local_requests [of s t] il by simp
  show ?thesis
  proof (cases "v = Inr False")
    case True
    then have "fetch s t = fetch_loop s1 t (0 # [Suc 0..<10])"
      using il by (simp add: fetch_def upt_ten del: fetch_loop.simps)
    then have "snd (fetch s t) = snd (fetch_body s1 t 0)"
      by (simp only: fetch_loop_snd)
    with fetch_body_requests_le [of s1 t 0] r1 show ?thesis by simp
  next
    case False
    then have "snd (fetch s t) = s1" using il by (cases v) (auto simp: fetch_def)
    with r1 have "requests (snd (fetch s t)) = requests s @ []" by simp
    then show ?thesis by (intro exI [of _ "[]"]) simp
  qed
qed

lemma fetch_not_None: "fst (fetch s t) \<noteq> Inr None"
proof -
  obtain v s1 where il: "is_local s t = (v, s1)" by (cases "is_local s t")
  show ?thesis
  proof (cases "v = Inr False")
    case True
    then have "fetch s t = fetch_loop s1 t (0 # [Suc 0..<10])"
      using il by (simp add: fetch_def upt_ten del: fetch_loop.simps)
    then have "fst (fetch s t) =
        (case fst (fetch_body s1 t 0) of
           Return b \<Rightarrow> Inr (Some b) | Raise e \<Rightarrow> Inl e | Continue \<Rightarrow> Inr None)"
      by (simp only: fetch_loop_fst)
    then show ?thesis
      using fetch_body_not_continue [of s1 t 0]
      by (simp split: loop_outcome.splits)
  next
    case False
    then show ?thesis using il by (cases v) (auto simp: fetch_def)
  qed
qed

lemma fetch_fst:
  assumes "cls_base_dir s = Some b" "b \<noteq> []" "remote_path s t = Inr url"
  shows "fst (fetch s t) =
     (case fst (is_local s t) of
        Inl e \<Rightarrow> Inl e
      | Inr v \<Rightarrow> if v then Inr (Some True) else attempt_result s)"
  using fetch_value [OF assms] by auto

lemma fetch_requests:
  assumes "cls_base_dir s = Some b" "b \<noteq> []" "remote_path s t = Inr url"
  shows "requests (snd (fetch s t)) =
     (if fst (is_local s t) = Inr False \<and> cls_connected s then requests s @ [url]
      else requests s)"
proof -
  obtain r s' where f: "fetch s t = (r, s')"
    and post: "if fst (is_local s t) = Inr False
       then attempt_post s url (os_path_join b (path s t)) (os_path_join b (bad_path s t)) s'
       else (\<exists>f. s' = s\<lparr>fs := f\<rparr>)
            \<and> fs s' (os_path_join b (path s t)) = fs s (os_path_join b (path s t))
            \<and> fs s' (os_path_join b (bad_path s t)) = fs s (os_path_join b (bad_path s t))"
    using fetch_value [OF assms] by blast
  show ?thesis
  proof (cases "fst (is_local s t) = Inr False")
    case True
    with post have "attempt_post s url (os_path_join b (path s t))
        (os_path_join b (bad_path s t)) s'" by simp
    then have "requests s' = (if cls_connected s then requests s @ [url] else requests s)"
      unfolding attempt_post_def by blast
    with f True show ?thesis by simp
  next
    case False
    with post obtain g where "s' = s\<lparr>fs := g\<rparr>" by auto
    then have "requests s' = requests s" by simp
    with f False show ?thesis by simp
  qed
qed

text \<open>A fetch answered with 404, and the next fetch of the same tile.\<close>

lemma fetch_not_found:
  assumes base: "cls_base_dir s = Some b" "b \<noteq> []" and url: "remote_path s t = Inr url"
    and miss: "fst (is_local s t) = Inr False" and conn: "cls_connected s"
    and nf: "server s (length (requests s)) = Fails (HTTPError 404)"
  shows "fst (fetch s t) = Inr (Some False)"
    and "attempt_post s url (os_path_join b (path s t)) (os_path_join b (bad_path s t))
           (snd (fetch s t))"
proof -
  show "fst (fetch s t) = Inr (Some False)"
    using fetch_fst [OF base url] miss conn nf by (simp add: attempt_result_def)
  show "attempt_post s url (os_path_join b (path s t)) (os_path_join b (bad_path s t))
           (snd (fetch s t))"
    using fetch_value [OF base url] miss by auto
qed

lemma refetch:
  assumes base: "cls_base_dir s = Some b" "b \<noteq> []" and url: "remote_path s t = Inr url"
    and miss: "fst (is_local s t) = Inr False" and conn: "cls_connected s"
    and nf: "server s (length (requests s)) = Fails (HTTPError 404)"
    and s2: "s2 = (snd (fetch s t))\<lparr>now := n, cls_connected := c, cls_tile_lifetime := l\<rparr>"
    and fresh: "fresh = (l = 0 \<or> \<not> c
        \<or> n - (case fs s (os_path_join b (path s t)) of None \<Rightarrow> now s | Some nd \<Rightarrow> st_mtime nd)
            < real_of_int l)"
  shows "fs (snd (fetch s t)) (os_path_join b (bad_path s t)) = Some (File [] (now s))"
    and "fs (snd (fetch s t)) (os_path_join b (path s t)) = fs s (os_path_join b (path s t))"
    and "requests (snd (fetch s t)) = requests s @ [url]"
    and "fst (fetch s2 t) = (if fresh then Inr (Some True) else attempt_result s2)"
    and "requests (snd (fetch s2 t)) = (if fresh then requests s2 else requests s2 @ [url])"
    and "requests s2 = requests s @ [url]" and "server s2 = server s" and "cls_connected s2 = c"
proof -
  let ?P = "os_path_join b (path s t)" and ?B = "os_path_join b (bad_path s t)"
  let ?s' = "snd (fetch s t)"
  have post: "attempt_post s url ?P ?B ?s'"
    using fetch_not_found(2) [OF base url miss conn nf] .
  then obtain f r p d where fr: "?s' = s\<lparr>fs := f, requests := r, opener_proxy := p, redraws := d\<rparr>"
    unfolding attempt_post_def by blast
  from post show B: "fs ?s' ?B = Some (File [] (now s))"
    unfolding attempt_post_def using conn nf by simp
  from post show P: "fs ?s' ?P = fs s ?P"
    unfolding attempt_post_def using conn nf by simp
  from post show R: "requests ?s' = requests s @ [url]"
    unfolding attempt_post_def using conn by simp
  have fields: "cls_base_dir s2 = Some b" "cls_zoom s2 = cls_zoom s"
    "cls_map_url s2 = cls_map_url s" "cls_map_url_key s2 = cls_map_url_key s"
    "cls_connected s2 = c" "cls_tile_lifetime s2 = l" "now s2 = n" "server s2 = server s"
    unfolding s2 fr using base by simp_all
  have fs2: "fs s2 = fs ?s'" and rq2: "requests s2 = requests ?s'" unfolding s2 by simp_all
  show "requests s2 = requests s @ [url]" using rq2 R by simp
  show "server s2 = server s" "cls_connected s2 = c" using fields by simp_all
  have pp: "path s2 t = path s t" "bad_path s2 t = bad_path s t"
    using path_zoom [OF fields(2)] bad_path_zoom [OF fields(2)] by simp_all
  have url2: "remote_path s2 t = Inr url"
    using remote_path_cong [OF fields(3,4,2), of t] url by simp
  have il: "fst (is_local s2 t) = Inr fresh"
    using is_local_fst [OF fields(1) base(2), of t]
    unfolding pp fs2 B P fields fresh
    by (cases "fs s ?P") auto
  show "fst (fetch s2 t) = (if fresh then Inr (Some True) else attempt_result s2)"
    using fetch_fst [OF fields(1) base(2) url2] il by simp
  have "\<not> fresh \<Longrightarrow> c" unfolding fresh by auto
  then show "requests (snd (fetch s2 t)) = (if fresh then requests s2 else requests s2 @ [url])"
    using fetch_requests [OF fields(1) base(2) url2] il fields(5) by auto
qed

lemma marker_fetch:
  assumes base: "cls_base_dir s = Some b" "b \<noteq> []" and url: "remote_path s t = Inr url"
    and marker: "fs s (os_path_join b (bad_path s t)) = Some m"
  shows "requests (snd (fetch s t)) =
      (if cls_tile_lifetime s = 0 \<or> \<not> cls_connected s
          \<or> now s - st_mtime (case fs s (os_path_join b (path s t)) of
                                 None \<Rightarrow> m | Some nd \<Rightarrow> nd)
              < real_of_int (cls_tile_lifetime s)
       then requests s else requests s @ [url])"
    and "fs (snd (fetch s t)) (os_path_join b (bad_path s t)) \<noteq> None"
proof -
  let ?P = "os_path_join b (path s t)" and ?B = "os_path_join b (bad_path s t)"
  let ?fresh = "cls_tile_lifetime s = 0 \<or> \<not> cls_connected s
          \<or> now s - st_mtime (case fs s ?P of None \<Rightarrow> m | Some nd \<Rightarrow> nd)
              < real_of_int (cls_tile_lifetime s)"
  have il: "fst (is_local s t) = Inr ?fresh"
    using is_local_fst [OF base, of t] marker by (cases "fs s ?P") auto
  have "\<not> ?fresh \<Longrightarrow> cls_connected s" by auto
  then show "requests (snd (fetch s t)) = (if ?fresh then requests s else requests s @ [url])"
    using fetch_requests [OF base url] il by auto
  obtain r s' where f: "fetch s t = (r, s')"
    and post: "if fst (is_local s t) = Inr False
       then attempt_post s url ?P ?B s'
       else (\<exists>f. s' = s\<lparr>fs := f\<rparr>) \<and> fs s' ?P = fs s ?P \<and> fs s' ?B = fs s ?B"
    using fetch_value [OF base url] by blast
  have "fs s' ?B \<noteq> None"
  proof (cases "fst (is_local s t) = Inr False")
    case True
    with post have "attempt_post s url ?P ?B s'" by simp
    then have "fs s' ?B =
        (if cls_connected s \<and> server s (length (requests s)) = Fails (HTTPError 404)
         then Some (File [] (now s)) else fs s ?B)"
      unfolding attempt_post_def by blast
    with marker show ?thesis by simp
  next
    case False
    with post marker show ?thesis by simp
  qed
  with f show "fs (snd (fetch s t)) ?B \<noteq> None" by simp
qed

lemma fetch_url_connected:
  assumes "cls_connected s"
  shows "fst (fetch_url s url local) =
     (case server s (length (requests s)) of
        Response d \<Rightarrow> (case local of None \<Rightarrow> Inl TypeError | Some p \<Rightarrow> Inr True)
      | Fails e \<Rightarrow>
          (case e of
             HTTPError c \<Rightarrow>
               if c = 404 then Inl MapTileNotFound else Inl (MapFetchError (HTTPError c))
           | _ \<Rightarrow> Inl (Urlopen e)))"
proof -
  obtain p where p: "install_opener s = s\<lparr>opener_proxy := p\<rparr>"
    using install_opener_frame by blast
  show ?thesis using assms
    by (simp add: fetch_url_def p urlopen_def Let_def
        split: urlopen_result.splits url_failure.splits option.splits)
qed

subsection \<open>Tile coordinates in exact arithmetic\<close>

text \<open>
  With real numbers in place of floating-point numbers, \<open>deg2num\<close> undoes
  \<open>num2deg\<close> at every zoom level and for all indices: the latitude of a tile's
  corner is \<open>arctan (sinh t)\<close>, whose tangent plus secant is \<open>exp t\<close>.
\<close>

lemma py_int_of_int: "py_int (real_of_int k) = k"
  by (simp add: py_int_def)

lemma deg2num_num2deg_real: "deg2num s (num2deg s x y) = Inr (x, y)"
proof -
  define n where "n = 2 powr real_of_int (cls_zoom s)"
  have n: "0 < n" by (simp add: n_def)
  define t where "t = pi * (1 - 2 * real_of_int y / n)"
  have lat: "latitude (num2deg s x y) * pi / 180 = arctan (sinh t)"
    by (simp add: num2deg_def Let_def n_def t_def)
  have lon: "longitude (num2deg s x y) = real_of_int x / n * 360 - 180"
    by (simp add: num2deg_def Let_def n_def)
  have ch: "0 < cosh t" by (rule cosh_real_pos)
  have "1 + (sinh t)\<^sup>2 = (cosh t)\<^sup>2" by (simp add: cosh_square_eq)
  then have "sqrt (1 + (sinh t)\<^sup>2) = cosh t" using ch by simp
  then have c: "cos (arctan (sinh t)) = 1 / cosh t" by (simp add: cos_arctan)
  have c0: "cos (arctan (sinh t)) \<noteq> 0" using c ch by simp
  have a: "tan (arctan (sinh t)) + 1 / cos (arctan (sinh t)) = exp t"
    by (simp add: c tan_arctan sinh_plus_cosh)
  have "t / pi = 1 - 2 * real_of_int y / n" by (simp add: t_def)
  then have yv: "(1 - ln (exp t) / pi) / 2 * n = real_of_int y" using n by simp
  have xv: "(real_of_int x / n * 360 - 180 + 180) / 360 * n = real_of_int x" using n by simp
  have Y: "py_int ((1 - ln (exp t) / pi) / 2 * n) = y" by (simp only: yv py_int_of_int)
  have X: "py_int ((real_of_int x / n * 360 - 180 + 180) / 360 * n) = x"
    by (simp only: xv py_int_of_int)
  have E: "\<not> exp t \<le> 0" by (simp add: not_le)
  show ?thesis
    unfolding deg2num_def Let_def lat lon n_def [symmetric] a X Y
    using c0 E by simp
qed

subsection \<open>The concrete runs\<close>

lemma example_paths:
  "path (example_state f t srv) example_tile = ''3/4/4.png''"
  "bad_path (example_state f t srv) example_tile = ''3/4/4.bad''"
  by (simp_all add: path_def bad_path_def example_state_def example_tile_def set_zoom_def
      format_d_def digit_char_def)

lemma example_fields:
  "cls_base_dir (example_state f t srv) = Some ''/maps''"
  "cls_map_url (example_state f t srv) = Some ''http://tiles.example/''"
  "cls_map_url_key (example_state f t srv) = None"
  "cls_connected (example_state f t srv) = True"
  "cls_tile_lifetime (example_state f t srv) = 60"
  "cls_zoom (example_state f t srv) = 3"
  "cls_proxy (example_state f t srv) = None"
  "now (example_state f t srv) = t"
  "server (example_state f t srv) = srv"
  "requests (example_state f t srv) = []"
  by (simp_all add: example_state_def set_zoom_def set_tile_lifetime_def set_connected_def
      set_map_info_def class_defaults_def os_makedirs_def Let_def)

lemma example_fs:
  "fs (example_state f t srv) =
     (case f ''/maps'' of None \<Rightarrow> f(''/maps'' \<mapsto> Dir t) | Some n \<Rightarrow> f)"
  by (simp add: example_state_def set_zoom_def set_tile_lifetime_def set_connected_def
      set_map_info_def class_defaults_def os_makedirs_def Let_def os_path_isdir_def
      dir_chain_def split: option.splits node.splits)

lemma example_joins:
  "os_path_join ''/maps'' ''3/4/4.png'' = ''/maps/3/4/4.png''"
  "os_path_join ''/maps'' ''3/4/4.bad'' = ''/maps/3/4/4.bad''"
  by (simp_all add: os_path_join_def)

lemma example_fs_tile:
  "fs (example_state f u srv) ''/maps/3/4/4.png'' = f ''/maps/3/4/4.png''"
  "fs (example_state f u srv) ''/maps/3/4/4.bad'' = f ''/maps/3/4/4.bad''"
  by (simp_all add: example_fs split: option.splits)

lemma example_remote_path:
  "remote_path (example_state f u srv) example_tile = Inr ''http://tiles.example/3/4/4.png''"
  by (simp add: remote_path_def example_fields example_paths)

lemma example_is_local:
  "fst (is_local (example_state f u srv) example_tile) =
     (case (if f ''/maps/3/4/4.png'' \<noteq> None then f ''/maps/3/4/4.png''
            else f ''/maps/3/4/4.bad'') of
        None \<Rightarrow> Inr False
      | Some n \<Rightarrow> Inr (u - st_mtime n < 60))"
proof -
  have b: "cls_base_dir (example_state f u srv) = Some ''/maps''" "''/maps'' \<noteq> []"
    by (simp_all add: example_fields)
  show ?thesis
    using is_local_fst [OF b, of example_tile]
    by (simp add: example_fields example_paths example_joins example_fs_tile
        split: option.splits)
qed

lemma contains_example:
  "contains (set_zoom s 0)
     \<lparr>position = p, x_tile = 0, y_tile = 0, tile_position = p\<rparr>
     \<lparr>latitude = 0, longitude = 0\<rparr>"
proof -
  have "0 < sinh (pi::real)" by simp
  then have a: "0 < arctan (sinh pi) * 180 / pi" by (simp add: zero_less_arctan_iff)
  then have "arctan (- sinh pi) * 180 / pi < 0" by (simp add: arctan_minus)
  with a show ?thesis
    by (simp add: contains_def tile_edges_def num2deg_def set_zoom_def Let_def)
qed

section \<open>The claims\<close>

text \<open>
  C1. One call of \<open>fetch\<close> sends at most one request to the server. When the cache
  check fails, the loop over \<open>range(10)\<close> ends in its first pass: the body never
  goes on to a next pass, so the passes after the first are never run and \<open>fetch\<close>
  never falls off the loop (it never returns \<open>None\<close>). With the base directory and
  the URL configured, a response returns true, an HTTP error (404 or any other) returns
  false, a disconnected class returns false without a request, and exactly one request
  is sent when connected.

  One outcome is not a return of false: a failure of \<open>urlopen\<close> that is not an
  \<open>HTTPError\<close> (a name that does not resolve, a timeout, a reset connection) is not
  wrapped by \<open>fetch_url\<close> (see C3), so it is not a \<open>MapFetchUrlException\<close> and
  \<open>except MapFetchUrlException\<close> does not catch it: \<open>fetch\<close> ends with that
  exception, in the first pass, where the claim has it return false.
\<close>

theorem fetch_single_attempt:
  "(\<exists>us. requests (snd (fetch s t)) = requests s @ us \<and> length us \<le> 1)
   \<and> fetch_loop s t (n # rest) = fetch_loop s t [n]
   \<and> fst (fetch_body s t n) \<noteq> Continue
   \<and> fst (fetch s t) \<noteq> Inr None
   \<and> (cls_base_dir s = Some b \<and> b \<noteq> [] \<and> remote_path s t = Inr url
        \<and> fst (is_local s t) = Inr False \<longrightarrow>
      fst (fetch s t) =
        (if \<not> cls_connected s then Inr (Some False)
         else case server s (length (requests s)) of
                Response d \<Rightarrow> Inr (Some True)
              | Fails e \<Rightarrow>
                  (case e of HTTPError c \<Rightarrow> Inr (Some False) | _ \<Rightarrow> Inl (Urlopen e)))
      \<and> requests (snd (fetch s t)) =
          (if cls_connected s then requests s @ [url] else requests s))"
proof (intro conjI impI)
  show "\<exists>us. requests (snd (fetch s t)) = requests s @ us \<and> length us \<le> 1"
    by (rule fetch_requests_le)
  show "fetch_loop s t (n # rest) = fetch_loop s t [n]" by (rule fetch_loop_first)
  show "fst (fetch_body s t n) \<noteq> Continue" by (rule fetch_body_not_continue)
  show "fst (fetch s t) \<noteq> Inr None" by (rule fetch_not_None)
next
  assume h: "cls_base_dir s = Some b \<and> b \<noteq> [] \<and> remote_path s t = Inr url
        \<and> fst (is_local s t) = Inr False"
  then have base: "cls_base_dir s = Some b" "b \<noteq> []" and url: "remote_path s t = Inr url"
    and miss: "fst (is_local s t) = Inr False" by simp_all
  show "fst (fetch s t) =
        (if \<not> cls_connected s then Inr (Some False)
         else case server s (length (requests s)) of
                Response d \<Rightarrow> Inr (Some True)
              | Fails e \<Rightarrow>
                  (case e of HTTPError c \<Rightarrow> Inr (Some False) | _ \<Rightarrow> Inl (Urlopen e)))"
    using fetch_fst [OF base url] miss by (simp add: attempt_result_def)
  show "requests (snd (fetch s t)) =
          (if cls_connected s then requests s @ [url] else requests s)"
    using fetch_requests [OF base url] miss by simp
qed

text \<open>
  The run with a timeout: the cache check fails, one request is sent, and \<open>fetch\<close>
  ends with the timeout instead of returning false.
\<close>

theorem fetch_single_attempt_witness:
  "cls_base_dir (example_state Map.empty 1000 (\<lambda>n. Fails SocketTimeout)) = Some ''/maps''
   \<and> remote_path (example_state Map.empty 1000 (\<lambda>n. Fails SocketTimeout)) example_tile
       = Inr ''http://tiles.example/3/4/4.png''
   \<and> fst (is_local (example_state Map.empty 1000 (\<lambda>n. Fails SocketTimeout)) example_tile)
       = Inr False
   \<and> cls_connected (example_state Map.empty 1000 (\<lambda>n. Fails SocketTimeout))
   \<and> fst (fetch (example_state Map.empty 1000 (\<lambda>n. Fails SocketTimeout)) example_tile)
       = Inl (Urlopen SocketTimeout)
   \<and> fst (fetch (example_state Map.empty 1000 (\<lambda>n. Fails SocketTimeout)) example_tile)
       \<noteq> Inr (Some False)
   \<and> requests (snd (fetch (example_state Map.empty 1000 (\<lambda>n. Fails SocketTimeout))
        example_tile)) = [''http://tiles.example/3/4/4.png'']"
proof -
  let ?s = "example_state Map.empty 1000 (\<lambda>n. Fails SocketTimeout)"
  have h: "cls_base_dir ?s = Some ''/maps''" "''/maps'' \<noteq> []"
    "remote_path ?s example_tile = Inr ''http://tiles.example/3/4/4.png''"
    "fst (is_local ?s example_tile) = Inr False"
    by (simp_all add: example_fields example_remote_path example_is_local)
  show ?thesis
    using h fetch_single_attempt [of ?s example_tile 0 "[]" "''/maps''"
        "''http://tiles.example/3/4/4.png''"]
    by (simp add: example_fields)
qed

text \<open>
  C2. With the base directory configured, \<open>is_local\<close> returns false when neither the
  tile file nor the bad-marker file exists. When one exists (the tile file is looked
  for first), it returns true if \<open>_tile_lifetime\<close> is 0 or \<open>_connected\<close> is false,
  and otherwise it returns true if and only if the current time minus the found
  file's modification time is strictly less than \<open>_tile_lifetime\<close>.
\<close>

theorem is_local_spec:
  assumes "cls_base_dir s = Some b" "b \<noteq> []"
  shows "fst (is_local s t) =
     (case (if fs s (os_path_join b (path s t)) \<noteq> None
            then fs s (os_path_join b (path s t))
            else fs s (os_path_join b (bad_path s t))) of
        None \<Rightarrow> Inr False
      | Some n \<Rightarrow>
          if cls_tile_lifetime s = 0 \<or> \<not> cls_connected s then Inr True
          else Inr (now s - st_mtime n < real_of_int (cls_tile_lifetime s)))"
  using assms by (rule is_local_fst)

theorem is_local_spec_witness:
  "cls_base_dir (example_state [''/maps/3/4/4.png'' \<mapsto> File ''png'' 1000] 1061 (\<lambda>n. Response ''png''))
      = Some ''/maps''
   \<and> ''/maps'' \<noteq> []
   \<and> fst (is_local (example_state [''/maps/3/4/4.png'' \<mapsto> File ''png'' 1000] 1061
        (\<lambda>n. Response ''png'')) example_tile) = Inr False
   \<and> fst (is_local (example_state [''/maps/3/4/4.png'' \<mapsto> File ''png'' 1000] 1059
        (\<lambda>n. Response ''png'')) example_tile) = Inr True
   \<and> fst (is_local (example_state Map.empty 1059 (\<lambda>n. Response ''png'')) example_tile) = Inr False"
proof -
  let ?f = "[''/maps/3/4/4.png'' \<mapsto> File ''png'' 1000]"
  let ?srv = "\<lambda>n::nat. Response ''png''"
  have b: "cls_base_dir (example_state g u ?srv) = Some ''/maps''" "''/maps'' \<noteq> []" for g u
    by (simp_all add: example_fields)
  show ?thesis
    using is_local_spec [OF b, of ?f 1061 example_tile]
      is_local_spec [OF b, of ?f 1059 example_tile]
      is_local_spec [OF b, of Map.empty 1059 example_tile]
    by (simp add: example_fields example_paths example_joins example_fs)
qed

text \<open>
  C3. What \<open>fetch_url\<close> raises when connected, for every answer of the server:
  \<open>MapTileNotFound\<close> on HTTP 404 and only then, \<open>MapFetchError\<close> on any other
  \<open>HTTPError\<close>. A failure of \<open>urlopen\<close> that is not an \<open>HTTPError\<close> (\<open>URLError\<close>
  for a name that does not resolve, a timeout, a reset connection) is not caught by
  \<open>except urllib.error.HTTPError\<close>: it is raised as it is, not wrapped in
  \<open>MapFetchError\<close>, and \<open>fetch\<close> does not catch it either. The docstring of
  \<open>fetch_url\<close> promises \<open>MapFetchError\<close> for "any other error".
\<close>

theorem fetch_url_outcomes:
  "fst (fetch_url (set_connected s True) url local) =
     (case server s (length (requests s)) of
        Response d \<Rightarrow> (case local of None \<Rightarrow> Inl TypeError | Some p \<Rightarrow> Inr True)
      | Fails e \<Rightarrow>
          (case e of
             HTTPError c \<Rightarrow>
               if c = 404 then Inl MapTileNotFound else Inl (MapFetchError (HTTPError c))
           | _ \<Rightarrow> Inl (Urlopen e)))
   \<and> fst (fetch_url (example_state Map.empty 1000 (\<lambda>n. Fails URLError))
        ''http://tiles.example/3/4/4.png'' (Some ''/maps/3/4/4.png'')) = Inl (Urlopen URLError)
   \<and> \<not> is_MapFetchUrlException (Urlopen URLError)
   \<and> fst (fetch (example_state Map.empty 1000 (\<lambda>n. Fails URLError)) example_tile)
       = Inl (Urlopen URLError)"
proof (intro conjI)
  have c: "cls_connected (set_connected s True)" by (simp add: set_connected_def)
  show "fst (fetch_url (set_connected s True) url local) =
     (case server s (length (requests s)) of
        Response d \<Rightarrow> (case local of None \<Rightarrow> Inl TypeError | Some p \<Rightarrow> Inr True)
      | Fails e \<Rightarrow>
          (case e of
             HTTPError c \<Rightarrow>
               if c = 404 then Inl MapTileNotFound else Inl (MapFetchError (HTTPError c))
           | _ \<Rightarrow> Inl (Urlopen e)))"
    using fetch_url_connected [OF c, of url local] by (simp add: set_connected_def)
next
  let ?s = "example_state Map.empty 1000 (\<lambda>n. Fails URLError)"
  have c: "cls_connected ?s" by (simp add: example_fields)
  show "fst (fetch_url ?s ''http://tiles.example/3/4/4.png'' (Some ''/maps/3/4/4.png''))
      = Inl (Urlopen URLError)"
    using fetch_url_connected [OF c] by (simp add: example_fields)
  show "\<not> is_MapFetchUrlException (Urlopen URLError)" by simp
  have h: "cls_base_dir ?s = Some ''/maps''" "''/maps'' \<noteq> []"
    "remote_path ?s example_tile = Inr ''http://tiles.example/3/4/4.png''"
    by (simp_all add: example_fields example_remote_path)
  show "fst (fetch ?s example_tile) = Inl (Urlopen URLError)"
    using fetch_fst [OF h]
    by (simp add: example_is_local attempt_result_def example_fields)
qed

text \<open>
  C4. \<open>remote_path\<close> is the base URL followed by \<open>zoom/x/y.png\<close> and by the class
  attribute \<open>_map_url_key\<close> when that is set. \<open>set_map_info\<close> stores the key it is
  given in another attribute, \<open>_map_key\<close>, which \<open>remote_path\<close> never reads: the URL
  after \<open>set_map_info\<close> does not depend on the key passed to it. At zoom 3 the
  position (0, 0) has tile indices (4, 4) (every intermediate value of that
  computation is exact in floating point as well) and, with the base URL
  \<open>http://tiles.example/\<close>, the URL is \<open>http://tiles.example/3/4/4.png\<close>, with or
  without a key given to \<open>set_map_info\<close>.
\<close>

theorem remote_path_ignores_configured_key:
  "remote_path (set_map_info s base_dir map_url key) t =
     Inr (map_url @ path s t @ (case cls_map_url_key s of None \<Rightarrow> [] | Some k \<Rightarrow> k))
   \<and> deg2num (example_state f u srv) \<lparr>latitude = 0, longitude = 0\<rparr> = Inr (4, 4)
   \<and> MapTile_init (example_state f u srv) (Some \<lparr>latitude = 0, longitude = 0\<rparr>) None None
       = Inr example_tile
   \<and> remote_path (example_state f u srv) example_tile = Inr ''http://tiles.example/3/4/4.png''
   \<and> remote_path
        (set_zoom (set_map_info (class_defaults f u srv) ''/maps'' ''http://tiles.example/''
           (Some ''?apikey=K'')) 3) example_tile
       = Inr ''http://tiles.example/3/4/4.png''"
proof (intro conjI)
  show g: "remote_path (set_map_info s base_dir map_url key) t =
     Inr (map_url @ path s t @ (case cls_map_url_key s of None \<Rightarrow> [] | Some k \<Rightarrow> k))"
    for s base_dir map_url key t
    by (simp add: remote_path_def set_map_info_def Let_def path_def os_makedirs_def
        split: option.splits)
  show d: "deg2num (example_state f u srv) \<lparr>latitude = 0, longitude = 0\<rparr> = Inr (4, 4)"
    by (simp add: deg2num_def example_fields py_int_def)
  have n: "num2deg (example_state f u srv) 4 4 = \<lparr>latitude = 0, longitude = 0\<rparr>"
    by (simp add: num2deg_def example_fields)
  show "MapTile_init (example_state f u srv) (Some \<lparr>latitude = 0, longitude = 0\<rparr>) None None
       = Inr example_tile"
    by (simp add: MapTile_init_def d n example_tile_def)
  show "remote_path (example_state f u srv) example_tile = Inr ''http://tiles.example/3/4/4.png''"
    by (rule example_remote_path)
  have "remote_path
        (set_zoom (set_map_info (class_defaults f u srv) ''/maps'' ''http://tiles.example/''
           (Some ''?apikey=K'')) 3) example_tile
      = remote_path (set_map_info (set_zoom (class_defaults f u srv) 3) ''/maps''
           ''http://tiles.example/'' (Some ''?apikey=K'')) example_tile"
    by (rule remote_path_cong)
       (simp_all add: set_zoom_def set_map_info_def Let_def os_makedirs_def)
  also have "\<dots> = Inr ''http://tiles.example/3/4/4.png''"
    unfolding g
    by (simp add: set_zoom_def class_defaults_def path_def format_d_def digit_char_def
        example_tile_def)
  finally show "remote_path
        (set_zoom (set_map_info (class_defaults f u srv) ''/maps'' ''http://tiles.example/''
           (Some ''?apikey=K'')) 3) example_tile
       = Inr ''http://tiles.example/3/4/4.png''" .
qed

text \<open>
  C5. A \<open>fetch\<close> whose request is answered with HTTP 404 creates the empty
  bad-marker file, stamped with the current time, and returns false. A later \<open>fetch\<close>
  of the same tile, at any clock value and with any setting of \<open>_connected\<close> and
  \<open>_tile_lifetime\<close>, sends no request and returns true if \<open>_tile_lifetime\<close> is 0, or
  \<open>_connected\<close> is false, or the file the cache check finds (the tile file if one
  exists, else the marker) is younger than \<open>_tile_lifetime\<close>; otherwise it sends a
  request again.
\<close>

theorem not_found_cached_while_fresh:
  assumes "cls_base_dir s = Some b" "b \<noteq> []" "remote_path s t = Inr url"
    and "fst (is_local s t) = Inr False" and "cls_connected s"
    and "server s (length (requests s)) = Fails (HTTPError 404)"
  shows "fst (fetch s t) = Inr (Some False)
    \<and> fs (snd (fetch s t)) (os_path_join b (bad_path s t)) = Some (File [] (now s))
    \<and> requests (snd (fetch s t)) = requests s @ [url]
    \<and> (\<forall>n c l.
         let s2 = (snd (fetch s t))\<lparr>now := n, cls_connected := c, cls_tile_lifetime := l\<rparr>;
             fresh = (l = 0 \<or> \<not> c
               \<or> n - (case fs s (os_path_join b (path s t)) of
                         None \<Rightarrow> now s | Some nd \<Rightarrow> st_mtime nd) < real_of_int l)
         in (fresh \<longrightarrow> fst (fetch s2 t) = Inr (Some True))
            \<and> requests (snd (fetch s2 t)) =
                (if fresh then requests s2 else requests s2 @ [url]))"
proof -
  note r = refetch [OF assms refl refl]
  have "fst (fetch s t) = Inr (Some False)" using fetch_not_found(1) [OF assms] .
  moreover note r(1) r(3)
  moreover have "\<forall>n c l.
         let s2 = (snd (fetch s t))\<lparr>now := n, cls_connected := c, cls_tile_lifetime := l\<rparr>;
             fresh = (l = 0 \<or> \<not> c
               \<or> n - (case fs s (os_path_join b (path s t)) of
                         None \<Rightarrow> now s | Some nd \<Rightarrow> st_mtime nd) < real_of_int l)
         in (fresh \<longrightarrow> fst (fetch s2 t) = Inr (Some True))
            \<and> requests (snd (fetch s2 t)) =
                (if fresh then requests s2 else requests s2 @ [url])"
    unfolding Let_def using r(4) r(5) by simp
  ultimately show ?thesis by blast
qed

theorem not_found_cached_while_fresh_witness:
  "cls_base_dir (example_state Map.empty 1000 (\<lambda>n. Fails (HTTPError 404))) = Some ''/maps''
   \<and> remote_path (example_state Map.empty 1000 (\<lambda>n. Fails (HTTPError 404))) example_tile
       = Inr ''http://tiles.example/3/4/4.png''
   \<and> fst (is_local (example_state Map.empty 1000 (\<lambda>n. Fails (HTTPError 404))) example_tile)
       = Inr False
   \<and> cls_connected (example_state Map.empty 1000 (\<lambda>n. Fails (HTTPError 404)))
   \<and> fst (fetch (example_state Map.empty 1000 (\<lambda>n. Fails (HTTPError 404))) example_tile)
       = Inr (Some False)
   \<and> fs (snd (fetch (example_state Map.empty 1000 (\<lambda>n. Fails (HTTPError 404))) example_tile))
        ''/maps/3/4/4.bad'' = Some (File [] 1000)
   \<and> fst (fetch ((snd (fetch (example_state Map.empty 1000 (\<lambda>n. Fails (HTTPError 404)))
          example_tile))\<lparr>now := 1030, cls_connected := True, cls_tile_lifetime := 60\<rparr>)
        example_tile) = Inr (Some True)
   \<and> requests (snd (fetch ((snd (fetch (example_state Map.empty 1000
          (\<lambda>n. Fails (HTTPError 404))) example_tile))\<lparr>now := 1030, cls_connected := True,
          cls_tile_lifetime := 60\<rparr>) example_tile)) = [''http://tiles.example/3/4/4.png'']"
proof -
  let ?s = "example_state Map.empty 1000 (\<lambda>n. Fails (HTTPError 404))"
  have h: "cls_base_dir ?s = Some ''/maps''" "''/maps'' \<noteq> []"
    "remote_path ?s example_tile = Inr ''http://tiles.example/3/4/4.png''"
    "fst (is_local ?s example_tile) = Inr False" "cls_connected ?s"
    "server ?s (length (requests ?s)) = Fails (HTTPError 404)"
    by (simp_all add: example_fields example_remote_path example_is_local)
  note T = not_found_cached_while_fresh [OF h]
  have none: "fs ?s (os_path_join ''/maps'' (path ?s example_tile)) = None"
    by (simp add: example_paths example_joins example_fs_tile)
  from T have a: "fst (fetch ?s example_tile) = Inr (Some False)"
    and b: "fs (snd (fetch ?s example_tile)) ''/maps/3/4/4.bad'' = Some (File [] 1000)"
    and c: "requests (snd (fetch ?s example_tile)) = [''http://tiles.example/3/4/4.png'']"
    by (simp_all add: example_paths example_joins example_fields)
  from T have "\<forall>n c l.
      let s2 = (snd (fetch ?s example_tile))\<lparr>now := n, cls_connected := c,
                 cls_tile_lifetime := l\<rparr>;
          fresh = (l = 0 \<or> \<not> c
               \<or> n - (case fs ?s (os_path_join ''/maps'' (path ?s example_tile)) of
                         None \<Rightarrow> now ?s | Some nd \<Rightarrow> st_mtime nd) < real_of_int l)
      in (fresh \<longrightarrow> fst (fetch s2 example_tile) = Inr (Some True))
         \<and> requests (snd (fetch s2 example_tile)) =
             (if fresh then requests s2 else requests s2 @ [''http://tiles.example/3/4/4.png''])"
    by blast
  then have "let s2 = (snd (fetch ?s example_tile))\<lparr>now := 1030, cls_connected := True,
                 cls_tile_lifetime := 60\<rparr>;
          fresh = ((60::int) = 0 \<or> \<not> True
               \<or> 1030 - (case fs ?s (os_path_join ''/maps'' (path ?s example_tile)) of
                         None \<Rightarrow> now ?s | Some nd \<Rightarrow> st_mtime nd) < real_of_int 60)
      in (fresh \<longrightarrow> fst (fetch s2 example_tile) = Inr (Some True))
         \<and> requests (snd (fetch s2 example_tile)) =
             (if fresh then requests s2 else requests s2 @ [''http://tiles.example/3/4/4.png''])"
    by blast
  then have d: "fst (fetch ((snd (fetch ?s example_tile))\<lparr>now := 1030, cls_connected := True,
        cls_tile_lifetime := 60\<rparr>) example_tile) = Inr (Some True)"
    and e: "requests (snd (fetch ((snd (fetch ?s example_tile))\<lparr>now := 1030,
        cls_connected := True, cls_tile_lifetime := 60\<rparr>) example_tile))
        = [''http://tiles.example/3/4/4.png'']"
    unfolding Let_def none by (simp_all add: example_fields c)
  from h a b d e show ?thesis by simp
qed

text \<open>
  C5 as the specification states it, without the condition on the age, fails: the
  marker written at time 1000 does not stop the request of a fetch at time 2000, with
  a lifetime of 60 seconds, and that fetch returns false.
\<close>

theorem not_found_refetched_when_stale:
  "fst (fetch (example_state Map.empty 1000 (\<lambda>n. Fails (HTTPError 404))) example_tile)
       = Inr (Some False)
   \<and> fs (snd (fetch (example_state Map.empty 1000 (\<lambda>n. Fails (HTTPError 404))) example_tile))
        ''/maps/3/4/4.bad'' = Some (File [] 1000)
   \<and> requests (snd (fetch (example_state Map.empty 1000 (\<lambda>n. Fails (HTTPError 404)))
        example_tile)) = [''http://tiles.example/3/4/4.png'']
   \<and> fst (fetch ((snd (fetch (example_state Map.empty 1000 (\<lambda>n. Fails (HTTPError 404)))
          example_tile))\<lparr>now := 2000, cls_connected := True, cls_tile_lifetime := 60\<rparr>)
        example_tile) = Inr (Some False)
   \<and> requests (snd (fetch ((snd (fetch (example_state Map.empty 1000
          (\<lambda>n. Fails (HTTPError 404))) example_tile))\<lparr>now := 2000, cls_connected := True,
          cls_tile_lifetime := 60\<rparr>) example_tile))
       = [''http://tiles.example/3/4/4.png'', ''http://tiles.example/3/4/4.png'']"
proof -
  let ?s = "example_state Map.empty 1000 (\<lambda>n. Fails (HTTPError 404))"
  let ?s2 = "(snd (fetch ?s example_tile))\<lparr>now := 2000, cls_connected := True,
      cls_tile_lifetime := 60\<rparr>"
  have h: "cls_base_dir ?s = Some ''/maps''" "''/maps'' \<noteq> []"
    "remote_path ?s example_tile = Inr ''http://tiles.example/3/4/4.png''"
    "fst (is_local ?s example_tile) = Inr False" "cls_connected ?s"
    "server ?s (length (requests ?s)) = Fails (HTTPError 404)"
    by (simp_all add: example_fields example_remote_path example_is_local)
  have none: "fs ?s (os_path_join ''/maps'' (path ?s example_tile)) = None"
    by (simp add: example_paths example_joins example_fs_tile)
  have s2: "?s2 = (snd (fetch ?s example_tile))\<lparr>now := 2000, cls_connected := True,
      cls_tile_lifetime := 60\<rparr>" by (rule refl)
  note r = refetch [OF h s2 refl]
  have a: "fst (fetch ?s example_tile) = Inr (Some False)" using fetch_not_found(1) [OF h] .
  have b: "fs (snd (fetch ?s example_tile)) ''/maps/3/4/4.bad'' = Some (File [] 1000)"
    using r(1) by (simp add: example_paths example_joins example_fields)
  have c: "requests (snd (fetch ?s example_tile)) = [''http://tiles.example/3/4/4.png'']"
    using r(3) by (simp add: example_fields)
  have q: "requests ?s2 = [''http://tiles.example/3/4/4.png'']" "cls_connected ?s2"
    "server ?s2 = (\<lambda>n. Fails (HTTPError 404))"
    using r(6,7,8) by (simp_all add: example_fields)
  have ar: "attempt_result ?s2 = Inr (Some False)"
    unfolding attempt_result_def q by simp
  have d: "fst (fetch ?s2 example_tile) = Inr (Some False)"
    using r(4) unfolding none ar by (simp add: example_fields)
  have e: "requests (snd (fetch ?s2 example_tile))
      = [''http://tiles.example/3/4/4.png'', ''http://tiles.example/3/4/4.png'']"
    using r(5) unfolding none q by (simp add: example_fields)
  from a b c d e show ?thesis by simp
qed

text \<open>
  C6. Once the bad-marker file of a tile exists, a \<open>fetch\<close> of the tile sends no
  request while \<open>_tile_lifetime\<close> is 0, or \<open>_connected\<close> is false, or the file the
  cache check finds (the tile file if one exists, else the marker) is younger than
  \<open>_tile_lifetime\<close>; when connected, with a lifetime other than 0 and a found file
  at least that old, it sends one request. \<open>fetch\<close> never removes the marker.
\<close>

theorem bad_marker_suppresses_requests_while_fresh:
  assumes "cls_base_dir s = Some b" "b \<noteq> []" "remote_path s t = Inr url"
    and "fs s (os_path_join b (bad_path s t)) = Some m"
  shows "requests (snd (fetch s t)) =
      (if cls_tile_lifetime s = 0 \<or> \<not> cls_connected s
          \<or> now s - st_mtime (case fs s (os_path_join b (path s t)) of
                                 None \<Rightarrow> m | Some nd \<Rightarrow> nd)
              < real_of_int (cls_tile_lifetime s)
       then requests s else requests s @ [url])
    \<and> fs (snd (fetch s t)) (os_path_join b (bad_path s t)) \<noteq> None"
  using marker_fetch [OF assms] by simp

theorem bad_marker_suppresses_requests_while_fresh_witness:
  "cls_base_dir (example_state [''/maps/3/4/4.bad'' \<mapsto> File [] 1000] 1030
      (\<lambda>n. Fails (HTTPError 404))) = Some ''/maps''
   \<and> remote_path (example_state [''/maps/3/4/4.bad'' \<mapsto> File [] 1000] 1030
      (\<lambda>n. Fails (HTTPError 404))) example_tile = Inr ''http://tiles.example/3/4/4.png''
   \<and> fs (example_state [''/maps/3/4/4.bad'' \<mapsto> File [] 1000] 1030
      (\<lambda>n. Fails (HTTPError 404))) ''/maps/3/4/4.bad'' = Some (File [] 1000)
   \<and> requests (snd (fetch (example_state [''/maps/3/4/4.bad'' \<mapsto> File [] 1000] 1030
      (\<lambda>n. Fails (HTTPError 404))) example_tile)) = []
   \<and> fs (snd (fetch (example_state [''/maps/3/4/4.bad'' \<mapsto> File [] 1000] 1030
      (\<lambda>n. Fails (HTTPError 404))) example_tile)) ''/maps/3/4/4.bad'' \<noteq> None"
proof -
  let ?s = "example_state [''/maps/3/4/4.bad'' \<mapsto> File [] 1000] 1030
      (\<lambda>n. Fails (HTTPError 404))"
  have j: "os_path_join ''/maps'' (bad_path ?s example_tile) = ''/maps/3/4/4.bad''"
    "os_path_join ''/maps'' (path ?s example_tile) = ''/maps/3/4/4.png''"
    by (simp_all add: example_paths example_joins)
  have h: "cls_base_dir ?s = Some ''/maps''" "''/maps'' \<noteq> []"
    "remote_path ?s example_tile = Inr ''http://tiles.example/3/4/4.png''"
    "fs ?s (os_path_join ''/maps'' (bad_path ?s example_tile)) = Some (File [] 1000)"
    unfolding j by (simp_all add: example_fields example_remote_path example_fs_tile)
  show ?thesis
    using h bad_marker_suppresses_requests_while_fresh [OF h]
    unfolding j by (simp add: example_fields example_fs_tile)
qed

text \<open>
  C6 as the specification states it, for any configuration and any elapsed time,
  fails: a marker from time 1000 is present, and the fetch at time 2000 (connected,
  lifetime 60) sends a request.
\<close>

theorem bad_marker_refetched_when_stale:
  "fs (example_state [''/maps/3/4/4.bad'' \<mapsto> File [] 1000] 2000
      (\<lambda>n. Fails (HTTPError 404))) ''/maps/3/4/4.bad'' = Some (File [] 1000)
   \<and> requests (example_state [''/maps/3/4/4.bad'' \<mapsto> File [] 1000] 2000
      (\<lambda>n. Fails (HTTPError 404))) = []
   \<and> requests (snd (fetch (example_state [''/maps/3/4/4.bad'' \<mapsto> File [] 1000] 2000
      (\<lambda>n. Fails (HTTPError 404))) example_tile)) = [''http://tiles.example/3/4/4.png'']"
proof -
  let ?s = "example_state [''/maps/3/4/4.bad'' \<mapsto> File [] 1000] 2000
      (\<lambda>n. Fails (HTTPError 404))"
  have j: "os_path_join ''/maps'' (bad_path ?s example_tile) = ''/maps/3/4/4.bad''"
    "os_path_join ''/maps'' (path ?s example_tile) = ''/maps/3/4/4.png''"
    by (simp_all add: example_paths example_joins)
  have h: "cls_base_dir ?s = Some ''/maps''" "''/maps'' \<noteq> []"
    "remote_path ?s example_tile = Inr ''http://tiles.example/3/4/4.png''"
    "fs ?s (os_path_join ''/maps'' (bad_path ?s example_tile)) = Some (File [] 1000)"
    unfolding j by (simp_all add: example_fields example_remote_path example_fs_tile)
  show ?thesis
    using h(4) marker_fetch(1) [OF h]
    unfolding j by (simp add: example_fields example_fs_tile)
qed

text \<open>
  C7. \<open>fetch_url\<close> raises \<open>MapNotConnected\<close> when the class attribute
  \<open>_connected\<close> is false; in that state it sends no request to the server and
  writes no file: it returns the state it was given.
\<close>

theorem fetch_url_not_connected:
  assumes "\<not> cls_connected s"
  shows "fetch_url s url local = (Inl MapNotConnected, s)
       \<and> requests (snd (fetch_url s url local)) = requests s
       \<and> fs (snd (fetch_url s url local)) = fs s"
  using assms by (simp add: fetch_url_def)

theorem fetch_url_not_connected_witness:
  "\<not> cls_connected (set_connected (example_state Map.empty 0 (\<lambda>n. Response ''png'')) False)
   \<and> fst (fetch_url (set_connected (example_state Map.empty 0 (\<lambda>n. Response ''png'')) False)
        ''http://tiles.example/3/4/4.png'' (Some ''/maps/3/4/4.png'')) = Inl MapNotConnected
   \<and> requests (snd (fetch_url (set_connected (example_state Map.empty 0 (\<lambda>n. Response ''png'')) False)
        ''http://tiles.example/3/4/4.png'' (Some ''/maps/3/4/4.png''))) = []
   \<and> fs (snd (fetch_url (set_connected (example_state Map.empty 0 (\<lambda>n. Response ''png'')) False)
        ''http://tiles.example/3/4/4.png'' (Some ''/maps/3/4/4.png''))) ''/maps/3/4/4.png'' = None"
proof -
  let ?s = "set_connected (example_state Map.empty 0 (\<lambda>n. Response ''png'')) False"
  have h: "\<not> cls_connected ?s" by (simp add: set_connected_def)
  have r: "requests ?s = []" by (simp add: set_connected_def example_fields)
  have f: "fs ?s ''/maps/3/4/4.png'' = None" by (simp add: set_connected_def example_fs)
  show ?thesis
    using h r f fetch_url_not_connected [OF h, of "''http://tiles.example/3/4/4.png''"
        "Some ''/maps/3/4/4.png''"]
    by simp
qed

text \<open>
  C8. The round trip \<open>deg2num (num2deg x y) = (x, y)\<close> is a statement about IEEE
  double arithmetic: \<open>num2deg\<close> returns exactly a tile boundary, and \<open>deg2num\<close>
  takes \<open>int()\<close> of a value that the rounding of \<open>atan\<close>, \<open>sinh\<close>, \<open>tan\<close>,
  \<open>cos\<close> and \<open>log\<close> may leave just below the integer. The definitions above
  compute with real numbers, where the round trip holds (\<open>deg2num_num2deg_real\<close>);
  that says nothing about the doubles the program computes with, and no theorem
  here stands for the claim.
\<close>

text \<open>
  C9. \<open>__contains__\<close> is a strict interior test against \<open>tile_edges\<close>: it is true
  exactly when the point's latitude and longitude each lie strictly between the
  tile's minimum and maximum edge coordinates. It is false at the tile's own
  north-west and south-east corners, and true at the position (0, 0) for the single
  tile of zoom 0. Only comparisons decide the first three statements, so they do not
  depend on how \<open>num2deg\<close> rounds.
\<close>

theorem contains_strict_interior:
  "(contains s t p \<longleftrightarrow>
      (case tile_edges s t of
         (lat_min, lon_min, lat_max, lon_max) \<Rightarrow>
           lat_min < latitude p \<and> latitude p < lat_max
           \<and> lon_min < longitude p \<and> longitude p < lon_max))
   \<and> \<not> contains s t (num2deg s (x_tile t) (y_tile t))
   \<and> \<not> contains s t (num2deg s (x_tile t + 1) (y_tile t + 1))
   \<and> contains (set_zoom s 0) \<lparr>position = q, x_tile = 0, y_tile = 0, tile_position = q\<rparr>
        \<lparr>latitude = 0, longitude = 0\<rparr>"
  using contains_example [of s q]
  by (simp add: contains_def tile_edges_def Let_def)

text \<open>
  C10. Every cache and fetch operation needs the base directory: when \<open>_base_dir\<close>
  is unset (\<open>None\<close>, or the empty string, which \<open>not self._base_dir\<close> treats alike),
  \<open>_local_path\<close> and \<open>_local_bad_path\<close> return \<open>None\<close>, and \<open>is_local\<close>,
  \<open>fetch\<close> and \<open>get_local_tile_path\<close> raise (\<open>TypeError\<close>, from
  \<open>os.path.exists(None)\<close>) instead of returning a false or absent result.
\<close>

theorem unset_base_dir_raises:
  assumes "cls_base_dir s = None \<or> cls_base_dir s = Some []"
  shows "m_local_path s t = (None, s) \<and> m_local_bad_path s t = (None, s)
       \<and> is_local s t = (Inl TypeError, s)
       \<and> fetch s t = (Inl TypeError, s)
       \<and> get_local_tile_path s t = (Inl TypeError, s)"
proof -
  have a: "m_local_path s t = (None, s)" using assms by (auto simp: m_local_path_def)
  have b: "m_local_bad_path s t = (None, s)" using assms by (auto simp: m_local_bad_path_def)
  have c: "is_local s t = (Inl TypeError, s)" by (simp add: is_local_def a os_path_exists_def)
  have d: "fetch s t = (Inl TypeError, s)" by (simp add: fetch_def c)
  have e: "get_local_tile_path s t = (Inl TypeError, s)"
    by (simp add: get_local_tile_path_def a os_path_exists_def)
  from a b c d e show ?thesis by simp
qed

theorem unset_base_dir_raises_witness:
  "cls_base_dir (class_defaults Map.empty 0 (\<lambda>n. Response ''png'')) = None
   \<and> fst (m_local_path (class_defaults Map.empty 0 (\<lambda>n. Response ''png'')) example_tile) = None
   \<and> fst (is_local (class_defaults Map.empty 0 (\<lambda>n. Response ''png'')) example_tile) = Inl TypeError
   \<and> fst (fetch (class_defaults Map.empty 0 (\<lambda>n. Response ''png'')) example_tile) = Inl TypeError
   \<and> fst (get_local_tile_path (class_defaults Map.empty 0 (\<lambda>n. Response ''png'')) example_tile)
       = Inl TypeError"
proof -
  let ?s = "class_defaults Map.empty 0 (\<lambda>n. Response ''png'')"
  have h: "cls_base_dir ?s = None" by (simp add: class_defaults_def)
  then have h': "cls_base_dir ?s = None \<or> cls_base_dir ?s = Some []" by simp
  show ?thesis using h unset_base_dir_raises [OF h', of example_tile] by simp
qed

end
